theory Spec2Isabelle
  imports Main "HOL-Library.AList"
begin

section \<open>JavaScript values\<close>

text \<open>
  The code under study is the feedback layer of a resume analyser written in TypeScript:
  \<^item> \<open>normalizeFeedback\<close> of the first viewer page (\<open>src/unnamed/part_000\<close>, lines 45 to 84)
    and \<open>normalizeFeedback\<close> of the second viewer page (same file, lines 288 to 315), here
    \<open>normalizeFeedback\<close> and \<open>normalizeFeedback2\<close>;
  \<^item> \<open>extractFeedbackText\<close>, \<open>pickUploaded\<close> and \<open>handleAnalyze\<close> of the upload page (same
    file, lines 521 to 679);
  \<^item> \<open>toAIResponseFromJSON\<close>, \<open>ollamaFeedback\<close>, \<open>readFile\<close>, \<open>blobToTextSafe\<close>, the store
    wrappers and \<open>feedback\<close> of the store (\<open>src/app/components/FileUploader.tsx\<close>, lines
    243 to 333, 518 to 534, 564 to 616 and 636 to 643).

  These functions are written against untyped (\<open>any\<close>) values: replies of the AI
  providers, results of \<open>JSON.parse\<close>, persisted records. A value is a tree. An object is
  the list of its properties in insertion order, with no key twice; the order in which
  JavaScript enumerates index-like keys (\<open>"0"\<close>, \<open>"1"\<close>, ...) is not modelled, and nothing
  below depends on it: properties are read by name. Numbers are the integer-valued ones
  (scores are integers), strings are ASCII texts.
\<close>

datatype js =
    JUndefined
  | JNull
  | JBool bool
  | JNum int
  | JStr string
  | JArr "js list"
  | JObj "(string \<times> js) list"

datatype jstype = TUndefined | TObject | TBoolean | TNumber | TString

text \<open>\<open>typeof x\<close>; note \<open>typeof null === "object"\<close> and arrays are objects.\<close>

fun typeof :: "js \<Rightarrow> jstype" where
  "typeof JUndefined = TUndefined"
| "typeof JNull = TObject"
| "typeof (JBool b) = TBoolean"
| "typeof (JNum n) = TNumber"
| "typeof (JStr s) = TString"
| "typeof (JArr xs) = TObject"
| "typeof (JObj kvs) = TObject"

text \<open>Truthiness: what \<open>!x\<close>, \<open>x && y\<close>, \<open>x || y\<close> and \<open>if (x)\<close> test.\<close>

fun truthy :: "js \<Rightarrow> bool" where
  "truthy JUndefined = False"
| "truthy JNull = False"
| "truthy (JBool b) = b"
| "truthy (JNum n) = (n \<noteq> 0)"
| "truthy (JStr s) = (s \<noteq> [])"
| "truthy (JArr xs) = True"
| "truthy (JObj kvs) = True"

text \<open>\<open>x == null\<close>, and the test made by \<open>??\<close> and \<open>?.\<close>.\<close>

fun nullish :: "js \<Rightarrow> bool" where
  "nullish JUndefined = True"
| "nullish JNull = True"
| "nullish x = False"

text \<open>\<open>a ?? b\<close>\<close>

definition nc :: "js \<Rightarrow> js \<Rightarrow> js" where
  "nc a b = (if nullish a then b else a)"

text \<open>\<open>a || b\<close>\<close>

definition or_js :: "js \<Rightarrow> js \<Rightarrow> js" where
  "or_js a b = (if truthy a then a else b)"

text \<open>
  \<open>x?.k\<close> for a property name \<open>k\<close> that is neither an array index nor a built-in property
  (every name read by the code under study is of that kind): the own property of an object,
  \<open>undefined\<close> on anything else, including \<open>null\<close> and \<open>undefined\<close>.
\<close>

fun get :: "js \<Rightarrow> string \<Rightarrow> js" where
  "get (JObj kvs) k = (case map_of kvs k of Some v \<Rightarrow> v | None \<Rightarrow> JUndefined)"
| "get x k = JUndefined"

text \<open>\<open>k in x\<close> for an own property.\<close>

fun has_key :: "js \<Rightarrow> string \<Rightarrow> bool" where
  "has_key (JObj kvs) k = (map_of kvs k \<noteq> None)"
| "has_key x k = False"

text \<open>\<open>x?.[0]\<close>\<close>

fun index0 :: "js \<Rightarrow> js" where
  "index0 (JArr (x # xs)) = x"
| "index0 x = JUndefined"

fun isArray :: "js \<Rightarrow> bool" where
  "isArray (JArr xs) = True"
| "isArray x = False"

text \<open>
  \<open>x.k = v\<close> on an object: an existing property keeps its place, a new one goes last.
  The code assigns only to plain objects.
\<close>

fun set_prop :: "js \<Rightarrow> string \<Rightarrow> js \<Rightarrow> js" where
  "set_prop (JObj kvs) k v = JObj (AList.update k v kvs)"
| "set_prop x k v = x"

text \<open>Assigning a sequence of properties, one after the other, to the properties \<open>base\<close>.\<close>

fun assign_all :: "(string \<times> js) list \<Rightarrow> (string \<times> js) list \<Rightarrow> (string \<times> js) list" where
  "assign_all base [] = base"
| "assign_all base ((k, v) # ps) = assign_all (AList.update k v base) ps"

section \<open>Strings of the platform\<close>

text \<open>Decimal text of a number, as \<open>String(n)\<close> and \<open>JSON.stringify(n)\<close> print an integer.\<close>

definition digit_char :: "nat \<Rightarrow> char" where
  "digit_char d = char_of (of_char (CHR ''0'') + d)"

function show_nat :: "nat \<Rightarrow> string" where
  "show_nat n = (if n < 10 then [digit_char n] else show_nat (n div 10) @ [digit_char (n mod 10)])"
  by pat_completeness auto
termination
  by (relation "measure id") auto

declare show_nat.simps [simp del]

definition show_int :: "int \<Rightarrow> string" where
  "show_int i = (if i < 0 then CHR ''-'' # show_nat (nat (- i)) else show_nat (nat i))"

text \<open>\<open>String.prototype.trim\<close> on ASCII text: tab, line feed, vertical tab, form feed,
  carriage return and space are removed at both ends.\<close>

definition is_space :: "char \<Rightarrow> bool" where
  "is_space c = (c \<in> {CHR 0x09, CHR 0x0A, CHR 0x0B, CHR 0x0C, CHR 0x0D, CHR '' ''})"

definition trim :: "string \<Rightarrow> string" where
  "trim s = rev (dropWhile is_space (rev (dropWhile is_space s)))"

text \<open>Joining printed parts with a separator, as \<open>Array.prototype.join\<close> does.\<close>

fun join :: "string \<Rightarrow> string list \<Rightarrow> string" where
  "join sep [] = []"
| "join sep [x] = x"
| "join sep (x # y # ys) = x @ sep @ join sep (y # ys)"

subsection \<open>\<open>JSON.stringify\<close>\<close>

definition hex_char :: "nat \<Rightarrow> char" where
  "hex_char d = (if d < 10 then digit_char d else char_of (of_char (CHR ''a'') + (d - 10)))"

text \<open>One character inside a JSON string literal.\<close>

definition quote_char :: "char \<Rightarrow> string" where
  \<open>quote_char c =
     (if c = CHR 0x08 then [CHR 0x5C, CHR ''b'']
      else if c = CHR 0x09 then [CHR 0x5C, CHR ''t'']
      else if c = CHR 0x0A then [CHR 0x5C, CHR ''n'']
      else if c = CHR 0x0C then [CHR 0x5C, CHR ''f'']
      else if c = CHR 0x0D then [CHR 0x5C, CHR ''r'']
      else if c = CHR ''"'' then [CHR 0x5C, CHR ''"'']
      else if c = CHR 0x5C then [CHR 0x5C, CHR 0x5C]
      else if (of_char c :: nat) < 32
        then [CHR 0x5C, CHR ''u'', CHR ''0'', CHR ''0'',
              hex_char (of_char c div 16), hex_char (of_char c mod 16)]
      else [c])\<close>

definition quote :: "string \<Rightarrow> string" where
  \<open>quote s = ''"'' @ concat (map quote_char s) @ ''"''\<close>

text \<open>
  The serialisation of a value. Inside an array \<open>undefined\<close> prints as \<open>null\<close>; a property
  whose value is \<open>undefined\<close> is left out. (The code never serialises a top-level
  \<open>undefined\<close>.)
\<close>

fun JSON_stringify :: "js \<Rightarrow> string"
  and stringify_elems :: "js list \<Rightarrow> string list"
  and stringify_members :: "(string \<times> js) list \<Rightarrow> string list" where
  "JSON_stringify JUndefined = ''null''"
| "JSON_stringify JNull = ''null''"
| "JSON_stringify (JBool b) = (if b then ''true'' else ''false'')"
| "JSON_stringify (JNum n) = show_int n"
| "JSON_stringify (JStr s) = quote s"
| "JSON_stringify (JArr xs) = ''['' @ join '','' (stringify_elems xs) @ '']''"
| "JSON_stringify (JObj kvs) = ''{'' @ join '','' (stringify_members kvs) @ ''}''"
| "stringify_elems [] = []"
| "stringify_elems (x # xs) = JSON_stringify x # stringify_elems xs"
| "stringify_members [] = []"
| "stringify_members ((k, v) # kvs) =
     (if v = JUndefined then stringify_members kvs
      else (quote k @ '':'' @ JSON_stringify v) # stringify_members kvs)"

text \<open>\<open>String(x)\<close> and \<open>`${x}`\<close>.\<close>

fun String_js :: "js \<Rightarrow> string"
  and String_elems :: "js list \<Rightarrow> string list" where
  "String_js JUndefined = ''undefined''"
| "String_js JNull = ''null''"
| "String_js (JBool b) = (if b then ''true'' else ''false'')"
| "String_js (JNum n) = show_int n"
| "String_js (JStr s) = s"
| "String_js (JArr xs) = join '','' (String_elems xs)"
| "String_js (JObj kvs) = ''[object Object]''"
| "String_elems [] = []"
| "String_elems (x # xs) = (if nullish x then [] else String_js x) # String_elems xs"

section \<open>Feedback Normalizer\<close>

text \<open>
  \<open>JSON.parse\<close> is the platform's: the functions below take it as the parameter \<open>parse\<close>,
  with \<open>None\<close> for the \<open>SyntaxError\<close> it throws. What each function does with a successful
  parse and with a failed one is the code's own.

  A result \<open>None\<close> of a normalizer stands for a recursion that never returns (a parser
  returning ever new strings); \<open>Some v\<close> is the value returned.
\<close>

text \<open>The object the normalizer works on (\<open>maybe\<close>): the nested \<open>feedback\<close> object when
  there is one, else the input.\<close>

definition has_nested :: "js \<Rightarrow> bool" where
  "has_nested input = (truthy (get input ''feedback'') \<and> typeof (get input ''feedback'') = TObject)"

definition effective :: "js \<Rightarrow> js" where
  "effective input = (if has_nested input then get input ''feedback'' else input)"

text \<open>The two assignments that reconcile alternate key names, in the code's order. The
  code assigns to \<open>maybe\<close> in place and returns it; here the assigned object is the result.\<close>

definition copy_tone :: "js \<Rightarrow> js" where
  "copy_tone maybe =
     (if \<not> truthy (get maybe ''toneAndStyle'') \<and> truthy (get maybe ''tone_and_style'')
      then set_prop maybe ''toneAndStyle'' (get maybe ''tone_and_style'')
      else maybe)"

definition copy_overall :: "js \<Rightarrow> js" where
  "copy_overall maybe =
     (if nullish (get maybe ''overallScore'') \<and> \<not> nullish (get maybe ''overall_score'')
      then set_prop maybe ''overallScore'' (get maybe ''overall_score'')
      else maybe)"

definition reconcile :: "js \<Rightarrow> js" where
  "reconcile maybe = copy_overall (copy_tone maybe)"

text \<open>The first viewer's \<open>normalizeFeedback\<close> (result type \<open>Feedback | string\<close>).\<close>

partial_function (option) normalizeFeedback :: "(string \<Rightarrow> js option) \<Rightarrow> js \<Rightarrow> js option" where
  "normalizeFeedback parse input =
     (if \<not> truthy input then Some (JStr [])
      else if typeof input = TObject then Some (reconcile (effective input))
      else (case input of
              JStr s \<Rightarrow>
                (case parse s of
                   Some parsed \<Rightarrow> normalizeFeedback parse parsed
                 | None \<Rightarrow> Some input)
            | _ \<Rightarrow>
                (case parse (String_js input) of
                   Some parsed \<Rightarrow> Some parsed
                 | None \<Rightarrow> Some (JStr (String_js input)))))"

declare normalizeFeedback.simps [code]

text \<open>The second viewer's \<open>normalizeFeedback\<close> (result type \<open>Feedback | null\<close>).\<close>

partial_function (option) normalizeFeedback2 :: "(string \<Rightarrow> js option) \<Rightarrow> js \<Rightarrow> js option" where
  "normalizeFeedback2 parse input =
     (if \<not> truthy input then Some JNull
      else (case input of
              JStr s \<Rightarrow>
                (case parse s of
                   Some parsed \<Rightarrow> normalizeFeedback2 parse parsed
                 | None \<Rightarrow> Some JNull)
            | _ \<Rightarrow>
                if typeof input \<noteq> TObject then Some JNull
                else Some (reconcile (effective input))))"

declare normalizeFeedback2.simps [code]

section \<open>A reference parser\<close>

text \<open>
  An executable parser for the JSON texts whose numbers are integers and whose \<open>\u\<close>
  escapes stay below 256: one behaviour the parameter \<open>parse\<close> can have, used to run the
  functions on concrete texts. It returns the value and the text left over; the recursion
  is on a bound on the nesting and the number of elements.
\<close>

definition is_json_ws :: "char \<Rightarrow> bool" where
  "is_json_ws c = (c \<in> {CHR 0x09, CHR 0x0A, CHR 0x0D, CHR '' ''})"

definition skip_ws :: "string \<Rightarrow> string" where
  "skip_ws s = dropWhile is_json_ws s"

definition is_digit :: "char \<Rightarrow> bool" where
  "is_digit c = ((48::nat) \<le> of_char c \<and> (of_char c :: nat) \<le> 57)"

definition hex_val :: "char \<Rightarrow> nat option" where
  "hex_val c =
     (let n = (of_char c :: nat) in
      if 48 \<le> n \<and> n \<le> 57 then Some (n - 48)
      else if 97 \<le> n \<and> n \<le> 102 then Some (n - 87)
      else if 65 \<le> n \<and> n \<le> 70 then Some (n - 55)
      else None)"

fun parse_digits :: "string \<Rightarrow> nat \<Rightarrow> nat \<times> string" where
  "parse_digits [] acc = (acc, [])"
| "parse_digits (c # cs) acc =
     (if is_digit c then parse_digits cs (acc * 10 + (of_char c - 48)) else (acc, c # cs))"

text \<open>An integer literal: \<open>-\<close>? then \<open>0\<close> or a digit sequence not starting with \<open>0\<close>;
  a fraction or an exponent is outside the fragment.\<close>

definition parse_nat_lit :: "string \<Rightarrow> (nat \<times> string) option" where
  "parse_nat_lit s =
     (case s of
        [] \<Rightarrow> None
      | c # cs \<Rightarrow>
          if \<not> is_digit c then None
          else (let (n, r) = (if c = CHR ''0'' then (0, cs) else parse_digits s 0)
                in if r \<noteq> [] \<and> hd r \<in> {CHR ''.'', CHR ''e'', CHR ''E''} then None
                   else Some (n, r)))"

definition parse_number :: "string \<Rightarrow> (js \<times> string) option" where
  "parse_number s =
     (if s \<noteq> [] \<and> hd s = CHR ''-''
      then map_option (\<lambda>(n, r). (JNum (- int n), r)) (parse_nat_lit (tl s))
      else map_option (\<lambda>(n, r). (JNum (int n), r)) (parse_nat_lit s))"

text \<open>The characters after an opening quote, up to the closing one.\<close>

fun parse_string_body :: "string \<Rightarrow> (string \<times> string) option" where
  "parse_string_body [] = None"
| "parse_string_body [c] = (if c = CHR 0x22 then Some ([], []) else None)"
| "parse_string_body (c # d # cs) =
     (if c = CHR 0x22 then Some ([], d # cs)
      else if c = CHR 0x5C then
        (if d = CHR ''u'' then
           (case cs of
              h1 # h2 # h3 # h4 # r \<Rightarrow>
                (case (hex_val h1, hex_val h2, hex_val h3, hex_val h4) of
                   (Some a, Some b, Some x, Some y) \<Rightarrow>
                     if a = 0 \<and> b = 0
                     then map_option (\<lambda>(t, r'). (char_of (16 * x + y) # t, r')) (parse_string_body r)
                     else None
                 | _ \<Rightarrow> None)
            | _ \<Rightarrow> None)
         else
           (case (if d = CHR 0x22 then Some (CHR 0x22)
                  else if d = CHR 0x5C then Some (CHR 0x5C)
                  else if d = CHR ''/'' then Some (CHR ''/'')
                  else if d = CHR ''b'' then Some (CHR 0x08)
                  else if d = CHR ''f'' then Some (CHR 0x0C)
                  else if d = CHR ''n'' then Some (CHR 0x0A)
                  else if d = CHR ''r'' then Some (CHR 0x0D)
                  else if d = CHR ''t'' then Some (CHR 0x09)
                  else None) of
              None \<Rightarrow> None
            | Some e \<Rightarrow> map_option (\<lambda>(t, r'). (e # t, r')) (parse_string_body cs)))
      else if (of_char c :: nat) < 32 then None
      else map_option (\<lambda>(t, r'). (c # t, r')) (parse_string_body (d # cs)))"

text \<open>A repeated key keeps its first place and takes its last value.\<close>

definition object_of :: "(string \<times> js) list \<Rightarrow> js" where
  "object_of kvs = JObj (assign_all [] kvs)"

fun parse_value :: "nat \<Rightarrow> string \<Rightarrow> (js \<times> string) option"
  and parse_elems :: "nat \<Rightarrow> string \<Rightarrow> (js list \<times> string) option"
  and parse_members :: "nat \<Rightarrow> string \<Rightarrow> ((string \<times> js) list \<times> string) option" where
  "parse_value 0 s = None"
| "parse_value (Suc n) s =
     (case skip_ws s of
        [] \<Rightarrow> None
      | c # cs \<Rightarrow>
          if c = CHR ''n'' then (if take 3 cs = ''ull'' then Some (JNull, drop 3 cs) else None)
          else if c = CHR ''t'' then (if take 3 cs = ''rue'' then Some (JBool True, drop 3 cs) else None)
          else if c = CHR ''f'' then (if take 4 cs = ''alse'' then Some (JBool False, drop 4 cs) else None)
          else if c = CHR 0x22 then map_option (\<lambda>(t, r). (JStr t, r)) (parse_string_body cs)
          else if c = CHR ''['' then
            (if skip_ws cs \<noteq> [] \<and> hd (skip_ws cs) = CHR '']''
             then Some (JArr [], tl (skip_ws cs))
             else map_option (\<lambda>(vs, r). (JArr vs, r)) (parse_elems n cs))
          else if c = CHR ''{'' then
            (if skip_ws cs \<noteq> [] \<and> hd (skip_ws cs) = CHR ''}''
             then Some (JObj [], tl (skip_ws cs))
             else map_option (\<lambda>(kvs, r). (object_of kvs, r)) (parse_members n cs))
          else parse_number (c # cs))"
| "parse_elems 0 s = None"
| "parse_elems (Suc n) s =
     (case parse_value n s of
        None \<Rightarrow> None
      | Some (v, r) \<Rightarrow>
          (case skip_ws r of
             [] \<Rightarrow> None
           | c # r' \<Rightarrow>
               if c = CHR '','' then map_option (\<lambda>(vs, r''). (v # vs, r'')) (parse_elems n r')
               else if c = CHR '']'' then Some ([v], r')
               else None))"
| "parse_members 0 s = None"
| "parse_members (Suc n) s =
     (case skip_ws s of
        [] \<Rightarrow> None
      | q # cs \<Rightarrow>
          if q \<noteq> CHR 0x22 then None
          else
            (case parse_string_body cs of
               None \<Rightarrow> None
             | Some (k, r) \<Rightarrow>
                 (case skip_ws r of
                    [] \<Rightarrow> None
                  | colon # r1 \<Rightarrow>
                      if colon \<noteq> CHR '':'' then None
                      else
                        (case parse_value n r1 of
                           None \<Rightarrow> None
                         | Some (v, r2) \<Rightarrow>
                             (case skip_ws r2 of
                                [] \<Rightarrow> None
                              | c # r3 \<Rightarrow>
                                  if c = CHR '','' then
                                    map_option (\<lambda>(kvs, r4). ((k, v) # kvs, r4)) (parse_members n r3)
                                  else if c = CHR ''}'' then Some ([(k, v)], r3)
                                  else None)))))"

definition JSON_parse_ref :: "string \<Rightarrow> js option" where
  "JSON_parse_ref s =
     (case parse_value (2 * length s + 2) s of
        None \<Rightarrow> None
      | Some (v, r) \<Rightarrow> if skip_ws r = [] then Some v else None)"

subsection \<open>Values that serialisation keeps\<close>

text \<open>A value with no \<open>undefined\<close> inside and no key twice in an object: what \<open>JSON.parse\<close>
  returns and what a persisted record holds.\<close>

fun json_clean :: "js \<Rightarrow> bool"
  and clean_elems :: "js list \<Rightarrow> bool"
  and clean_members :: "(string \<times> js) list \<Rightarrow> bool" where
  "json_clean JUndefined = False"
| "json_clean JNull = True"
| "json_clean (JBool b) = True"
| "json_clean (JNum n) = True"
| "json_clean (JStr s) = True"
| "json_clean (JArr xs) = clean_elems xs"
| "json_clean (JObj kvs) = (distinct (map fst kvs) \<and> clean_members kvs)"
| "clean_elems [] = True"
| "clean_elems (x # xs) = (json_clean x \<and> clean_elems xs)"
| "clean_members [] = True"
| "clean_members ((k, v) # kvs) = (json_clean v \<and> clean_members kvs)"

text \<open>The number of values, elements and members of a value: a bound on what the
  reference parser needs to read its serialisation.\<close>

fun sz :: "js \<Rightarrow> nat"
  and sz_elems :: "js list \<Rightarrow> nat"
  and sz_members :: "(string \<times> js) list \<Rightarrow> nat" where
  "sz (JArr xs) = Suc (sz_elems xs)"
| "sz (JObj kvs) = Suc (sz_members kvs)"
| "sz x = 1"
| "sz_elems [] = 0"
| "sz_elems (x # xs) = Suc (sz x + sz_elems xs)"
| "sz_members [] = 0"
| "sz_members ((k, v) # kvs) = Suc (sz v + sz_members kvs)"

text \<open>What may follow a value inside a JSON text.\<close>

definition ends_value :: "string \<Rightarrow> bool" where
  "ends_value rest = (rest = [] \<or> hd rest \<in> {CHR '','', CHR '']'', CHR ''}''})"

section \<open>Errors\<close>

text \<open>What a \<open>throw\<close> carries: the engine's \<open>TypeError\<close> of a property read on \<open>null\<close> or
  \<open>undefined\<close>, or an \<open>Error\<close> raised by the code or by a collaborator, with its message.\<close>

datatype error = TypeError | Thrown string

definition bindE :: "error + 'a \<Rightarrow> ('a \<Rightarrow> error + 'b) \<Rightarrow> error + 'b" where
  "bindE m f = (case m of Inl e \<Rightarrow> Inl e | Inr x \<Rightarrow> f x)"

text \<open>\<open>x.k\<close> without \<open>?.\<close>: throws on \<open>null\<close> and \<open>undefined\<close>.\<close>

definition read_prop :: "js \<Rightarrow> string \<Rightarrow> error + js" where
  "read_prop x k = (if nullish x then Inl TypeError else Inr (get x k))"

text \<open>\<open>x[0]\<close> without \<open>?.\<close>\<close>

definition elem0 :: "js \<Rightarrow> error + js" where
  "elem0 x = (if nullish x then Inl TypeError else Inr (index0 x))"

section \<open>Response Extractor\<close>

definition extractFeedbackText :: "js \<Rightarrow> error + js" where
  "extractFeedbackText feedback =
     (if \<not> truthy feedback then Inr (JStr [])
      else if typeof feedback = TString then Inr feedback
      else
        (let msg = get feedback ''message'' in
         if typeof (get msg ''content'') = TString then read_prop msg ''content''
         else
           bindE (if isArray (get msg ''content'')
                  then bindE (read_prop msg ''content'')
                         (\<lambda>c. Inr (typeof (get (index0 c) ''text'') = TString))
                  else Inr False)
             (\<lambda>first_text.
                if first_text
                then bindE (read_prop msg ''content'') (\<lambda>c. bindE (elem0 c) (\<lambda>e. read_prop e ''text''))
                else if typeof feedback = TObject then Inr (JStr (JSON_stringify feedback))
                else Inr (JStr []))))"

section \<open>Provider Fallback Resolver\<close>

text \<open>The properties \<open>{...x}\<close> copies: the own properties of an object, the indexed elements
  of an array, the indexed characters of a string, nothing of any other value.\<close>

fun indexed :: "nat \<Rightarrow> js list \<Rightarrow> (string \<times> js) list" where
  "indexed i [] = []"
| "indexed i (x # xs) = (show_nat i, x) # indexed (Suc i) xs"

fun own_props :: "js \<Rightarrow> (string \<times> js) list" where
  "own_props (JObj kvs) = kvs"
| "own_props (JArr xs) = indexed 0 xs"
| "own_props (JStr s) = indexed 0 (map (\<lambda>c. JStr [c]) s)"
| "own_props x = []"

text \<open>An object literal \<open>{k1: v1, ..., ...x}\<close>: the spread properties are assigned, in order,
  over the ones written before them.\<close>

definition spread_over :: "(string \<times> js) list \<Rightarrow> js \<Rightarrow> js" where
  "spread_over base x = JObj (assign_all base (own_props x))"

definition toAIResponseFromJSON :: "string \<Rightarrow> js \<Rightarrow> js" where
  "toAIResponseFromJSON uuid parsed =
     spread_over
       [(''id'', JStr uuid),
        (''overallScore'', nc (get parsed ''overallScore'') (nc (get parsed ''overall_score'') (JNum 70))),
        (''content'',
           nc (get parsed ''content'')
              (JObj [(''score'', nc (get parsed ''contentScore'') (JNum 70)),
                     (''tips'', nc (get parsed ''contentTips'') (JArr []))])),
        (''skills'',
           nc (get parsed ''skills'')
              (JObj [(''score'', JNum 70),
                     (''tips'', nc (get parsed ''skillsTips'') (JArr [])),
                     (''missing'', nc (get parsed ''skillsMissing'') (JArr []))])),
        (''structure'',
           nc (get parsed ''structure'')
              (JObj [(''score'', JNum 70), (''tips'', nc (get parsed ''structureTips'') (JArr []))])),
        (''toneAndStyle'',
           nc (get parsed ''toneAndStyle'')
              (nc (get parsed ''tone_and_style'')
                  (JObj [(''score'', JNum 70), (''tips'', nc (get parsed ''toneTips'') (JArr []))]))),
        (''tips'', nc (get parsed ''tips'') (JArr []))]
       (nc parsed (JObj []))"

text \<open>The literal returned when the model's text is not JSON.\<close>

definition tip :: "string \<Rightarrow> string \<Rightarrow> js" where
  "tip ty txt = JObj [(''type'', JStr ty), (''tip'', JStr txt)]"

definition non_json_fallback :: js where
  "non_json_fallback =
     JObj
       [(''overallScore'', JNum 65),
        (''tips'',
           JArr [tip ''improve''
                   ''AI returned non-JSON output. Try a different model or simplify the input.'']),
        (''content'',
           JObj [(''score'', JNum 65),
                 (''tips'',
                    JArr [tip ''improve''
                            ''Add more role-specific keywords and measurable achievements.''])]),
        (''skills'',
           JObj [(''score'', JNum 60),
                 (''tips'',
                    JArr [tip ''improve''
                            ''List key tools/skills explicitly to improve ATS matching.''])]),
        (''structure'',
           JObj [(''score'', JNum 70),
                 (''tips'',
                    JArr [tip ''good''
                            ''Structure looks mostly clear; ensure consistent headings and spacing.''])]),
        (''toneAndStyle'',
           JObj [(''score'', JNum 65),
                 (''tips'',
                    JArr [tip ''improve'' ''Use stronger action verbs and quantify results.''])])]"

text \<open>What the request to the local endpoint comes to: \<open>fetch\<close> rejects, or there is a reply
  with \<open>res.ok\<close>, \<open>res.status\<close>, the text \<open>res.text().catch(() => "")\<close> yields, and the value
  \<open>res.json()\<close> yields (\<open>None\<close> when it rejects).\<close>

datatype http_reply = NetworkFailure string | Reply bool nat string "js option"

text \<open>
  The collaborators of the store and of the upload page, each with what it returns or
  throws: whether \<open>window.puter\<close> is there; \<open>puter.fs.upload\<close>, \<open>puter.fs.read\<close>,
  \<open>blob.text()\<close>, \<open>puter.ai.chat\<close> (by the file path and the message sent) and
  \<open>puter.kv.set\<close>; the local endpoint, as a function of the prompt posted to it (model name
  and options of the request are constants); the identifiers \<open>crypto.randomUUID()\<close> and
  \<open>generateUUID()\<close> draw; \<open>convertPdfToImage\<close>; and the instructions text built from
  \<open>prepareInstructions\<close>.
\<close>

record env =
  puter_available :: bool
  puter_fs_upload :: "js list \<Rightarrow> error + js"
  puter_fs_read :: "js \<Rightarrow> error + js"
  blob_text :: "js \<Rightarrow> error + string"
  puter_ai_chat :: "js \<Rightarrow> string \<Rightarrow> error + js"
  puter_kv_set :: "string \<Rightarrow> string \<Rightarrow> error + js"
  fetch_ollama :: "string \<Rightarrow> http_reply"
  randomUUID :: string
  generateUUID :: string
  convertPdfToImage :: "js \<Rightarrow> error + js"
  buildInstructions :: "string \<Rightarrow> string \<Rightarrow> string"

definition nl :: string where
  "nl = [CHR 0x0A]"

definition strictPrompt :: "string \<Rightarrow> string" where
  \<open>strictPrompt prompt =
     trim (nl @ join nl
       [''You are an ATS resume analyzer.'',
        [],
        ''Return ONLY valid JSON. No markdown. No explanations outside JSON.'',
        [],
        ''Required JSON schema:'',
        ''{'',
        ''  "overallScore": number,'',
        ''  "content": { "score": number, "tips": Array<{ "type": "good"|"improve", "tip": string, "explanation"?: string }> },'',
        ''  "skills": { "score": number, "tips": Array<{ "type": "good"|"improve", "tip": string, "explanation"?: string }> },'',
        ''  "structure": { "score": number, "tips": Array<{ "type": "good"|"improve", "tip": string, "explanation"?: string }> },'',
        ''  "toneAndStyle": { "score": number, "tips": Array<{ "type": "good"|"improve", "tip": string, "explanation"?: string }> },'',
        ''  "tips": Array<{ "type": "good"|"improve", "tip": string, "explanation"?: string }>'',
        ''}'',
        [],
        ''Analyze based on the following input:'',
        prompt] @ nl)\<close>

definition ollamaFeedback :: "(string \<Rightarrow> js option) \<Rightarrow> env \<Rightarrow> string \<Rightarrow> error + js" where
  "ollamaFeedback parse env prompt =
     (case fetch_ollama env (strictPrompt prompt) of
        NetworkFailure m \<Rightarrow> Inl (Thrown m)
      | Reply ok status txt body \<Rightarrow>
          if \<not> ok
          then Inl (Thrown (''Ollama request failed ('' @ show_nat status @ ''): '' @ txt))
          else
            (case body of
               None \<Rightarrow> Inl (Thrown ''res.json() rejected'')
             | Some data \<Rightarrow>
                 (let raw = nc (get data ''response'') (JStr []) in
                  case raw of
                    JStr r \<Rightarrow>
                      (case parse (trim r) of
                         Some parsed \<Rightarrow> Inr (toAIResponseFromJSON (randomUUID env) parsed)
                       | None \<Rightarrow> Inr (toAIResponseFromJSON (randomUUID env) non_json_fallback))
                  | _ \<Rightarrow> Inr (toAIResponseFromJSON (randomUUID env) non_json_fallback))))"

text \<open>The store's \<open>readFile\<close> and \<open>blobToTextSafe\<close>.\<close>

definition readFile :: "env \<Rightarrow> js \<Rightarrow> error + js" where
  "readFile env path = (if \<not> puter_available env then Inr JUndefined else puter_fs_read env path)"

definition blobToTextSafe :: "env \<Rightarrow> js \<Rightarrow> string" where
  "blobToTextSafe env blob = (case blob_text env blob of Inl e \<Rightarrow> [] | Inr t \<Rightarrow> t)"

text \<open>The prompt \<open>combined\<close>, built from the stored file when it can be read.\<close>

definition combined :: "env \<Rightarrow> js \<Rightarrow> string \<Rightarrow> js \<Rightarrow> string" where
  "combined env path message blob =
     (let fileText = (if truthy blob then blobToTextSafe env blob else [])
      in message @ nl @ nl @ ''(Resume file path: '' @ String_js path @ '')'' @ nl
         @ ''(Resume raw text if extractable: '' @ take 6000 fileText @ '')'')"

text \<open>The \<open>try { ... ollamaFeedback(combined) } catch { ... ollamaFeedback(message) }\<close> block,
  which \<open>feedback\<close> has twice: when the hosted client is missing and when its call throws.\<close>

definition ollamaFallback :: "(string \<Rightarrow> js option) \<Rightarrow> env \<Rightarrow> js \<Rightarrow> string \<Rightarrow> error + js" where
  "ollamaFallback parse env path message =
     (case bindE (readFile env path)
             (\<lambda>blob. ollamaFeedback parse env (combined env path message blob)) of
        Inr local \<Rightarrow> Inr local
      | Inl e \<Rightarrow> ollamaFeedback parse env message)"

definition feedback :: "(string \<Rightarrow> js option) \<Rightarrow> env \<Rightarrow> js \<Rightarrow> string \<Rightarrow> error + js" where
  "feedback parse env path message =
     (if \<not> puter_available env then ollamaFallback parse env path message
      else
        (case puter_ai_chat env path message of
           Inr reply \<Rightarrow> Inr reply
         | Inl err \<Rightarrow> ollamaFallback parse env path message))"

section \<open>Upload flow\<close>

text \<open>The store's wrappers: without the hosted client they return \<open>undefined\<close> and do nothing.\<close>

definition fs_upload :: "env \<Rightarrow> js list \<Rightarrow> error + js" where
  "fs_upload env files = (if \<not> puter_available env then Inr JUndefined else puter_fs_upload env files)"

text \<open>What the flow does to the outside, in order: a call of the key-value store's \<open>set\<close>
  (key, value) and a call of \<open>ai.feedback\<close> (path, message).\<close>

datatype event = KvSet string string | AiFeedback js string

definition kv_set :: "env \<Rightarrow> string \<Rightarrow> string \<Rightarrow> event list \<times> (error + js)" where
  "kv_set env key val =
     (if \<not> puter_available env then ([], Inr JUndefined)
      else ([KvSet key val], puter_kv_set env key val))"

definition pickUploaded :: "js \<Rightarrow> js" where
  "pickUploaded uploaded =
     (if isArray uploaded then index0 uploaded
      else if truthy (get uploaded ''file'') then get uploaded ''file''
      else uploaded)"

text \<open>The state the flow leaves: the calls made, the status text shown last (the texts
  shown on the way and the console output are left out), the processing flag, and the
  route the redirect was scheduled for.\<close>

record outcome =
  events :: "event list"
  statusText :: js
  isProcessing :: bool
  navigated :: "string option"

text \<open>A \<open>return\<close> after \<open>setStatusText(msg)\<close>, and the \<open>catch\<close> block; both pass through
  \<open>finally\<close>.\<close>

definition stop :: "event list \<Rightarrow> js \<Rightarrow> outcome" where
  "stop evs msg = \<lparr>events = evs, statusText = msg, isProcessing = False, navigated = None\<rparr>"

definition caught :: "event list \<Rightarrow> outcome" where
  "caught evs = stop evs (JStr ''Error: Something went wrong during analysis.'')"

text \<open>The object literal \<open>data\<close> of step 4, with its \<open>feedback\<close> property.\<close>

definition resume_data :: "string \<Rightarrow> js \<Rightarrow> js \<Rightarrow> string \<Rightarrow> string \<Rightarrow> string \<Rightarrow> js \<Rightarrow> js" where
  "resume_data uuid resumePath imagePath companyName jobTitle jobDescription fb =
     JObj [(''id'', JStr uuid),
           (''resumePath'', resumePath),
           (''imagePath'', imagePath),
           (''companyName'', JStr companyName),
           (''jobTitle'', JStr jobTitle),
           (''jobDescription'', JStr jobDescription),
           (''feedback'', fb)]"

definition combinedMessage :: "env \<Rightarrow> string \<Rightarrow> string \<Rightarrow> string \<Rightarrow> string" where
  "combinedMessage env companyName jobTitle jobDescription =
     trim (nl @ join nl
       [''Job Title: '' @ jobTitle,
        ''Company: '' @ companyName,
        [],
        ''Job Description:'',
        jobDescription,
        [],
        ''Instructions:'',
        buildInstructions env jobTitle jobDescription,
        [],
        ''Return ONLY valid JSON as instructed.''] @ nl)"

text \<open>Step 5 of \<open>handleAnalyze\<close> and what follows it: the AI call, the extraction, the parse
  and the final write. \<open>data\<close> and \<open>key\<close> are the record and the key of step 4, \<open>evs\<close> the
  calls made so far.\<close>

definition analyze_and_save ::
  "(string \<Rightarrow> js option) \<Rightarrow> env \<Rightarrow> string \<Rightarrow> js \<Rightarrow> string \<Rightarrow> js \<Rightarrow> string \<Rightarrow> event list
     \<Rightarrow> outcome" where
  "analyze_and_save parse env uuid data key path message evs =
     (let ev2 = evs @ [AiFeedback path message] in
      case feedback parse env path message of
        Inl e \<Rightarrow> caught ev2
      | Inr fb \<Rightarrow>
          if \<not> truthy fb then stop ev2 (JStr ''Error: Failed to get feedback from AI.'')
          else
            (case extractFeedbackText fb of
               Inl e \<Rightarrow> caught ev2
             | Inr feedbackText \<Rightarrow>
                 if \<not> truthy feedbackText then stop ev2 (JStr ''Error: AI returned empty feedback.'')
                 else
                   (case (case parse (String_js feedbackText) of
                            Some parsed \<Rightarrow> Some parsed
                          | None \<Rightarrow> if typeof fb = TObject then Some fb else None) of
                      None \<Rightarrow> stop ev2 (JStr ''Error: AI response was not valid JSON.'')
                    | Some fbv \<Rightarrow>
                        (let data' = set_prop data ''feedback'' fbv;
                             (ev3, saved2) = kv_set env key (JSON_stringify data')
                         in case saved2 of
                              Inl e \<Rightarrow> caught (ev2 @ ev3)
                            | Inr ok2 \<Rightarrow>
                                \<lparr>events = ev2 @ ev3,
                                 statusText = JStr ''Analysis complete. Redirecting...'',
                                 isProcessing = False,
                                 navigated = Some (''/resume/'' @ uuid)\<rparr>))))"

text \<open>\<open>handleAnalyze\<close>: steps 1 to 4 (upload, conversion, upload of the image, the
  placeholder write), then step 5.\<close>

definition handleAnalyze ::
  "(string \<Rightarrow> js option) \<Rightarrow> env \<Rightarrow> string \<Rightarrow> string \<Rightarrow> string \<Rightarrow> js \<Rightarrow> outcome" where
  "handleAnalyze parse env companyName jobTitle jobDescription file =
     (case fs_upload env [file] of
        Inl e \<Rightarrow> caught []
      | Inr uploadedPdfRaw \<Rightarrow>
          (let uploadedPdf = pickUploaded uploadedPdfRaw in
           if \<not> truthy (get uploadedPdf ''path'') then stop [] (JStr ''Error: Failed to upload PDF.'')
           else
             (case convertPdfToImage env file of
                Inl e \<Rightarrow> caught []
              | Inr imageResult \<Rightarrow>
                  (let imageFile = nc (get imageResult ''file'') JNull in
                   if \<not> truthy imageFile
                   then stop [] (or_js (get imageResult ''error'')
                                   (JStr ''Error: Failed to convert PDF to image.''))
                   else
                     (case fs_upload env [imageFile] of
                        Inl e \<Rightarrow> caught []
                      | Inr uploadedImgRaw \<Rightarrow>
                          (let uploadedImg = pickUploaded uploadedImgRaw in
                           if \<not> truthy (get uploadedImg ''path'')
                           then stop [] (JStr ''Error: Failed to upload image.'')
                           else
                             (let uuid = generateUUID env;
                                  data = resume_data uuid (get uploadedPdf ''path'')
                                           (get uploadedImg ''path'')
                                           companyName jobTitle jobDescription (JStr []);
                                  key = ''resume:'' @ uuid;
                                  (ev1, saved1) = kv_set env key (JSON_stringify data)
                              in case saved1 of
                                   Inl e \<Rightarrow> caught ev1
                                 | Inr ok1 \<Rightarrow>
                                     analyze_and_save parse env uuid data key
                                       (get uploadedPdf ''path'')
                                       (combinedMessage env companyName jobTitle jobDescription)
                                       ev1)))))))"

text \<open>The writes among the calls made, as pairs of key and value.\<close>

fun kv_writes :: "event list \<Rightarrow> (string \<times> string) list" where
  "kv_writes [] = []"
| "kv_writes (KvSet k v # es) = (k, v) # kv_writes es"
| "kv_writes (AiFeedback p m # es) = kv_writes es"

section \<open>Concrete inputs and expected values\<close>

text \<open>Values and collaborators on which the functions are run below, and values they
  are expected to return.\<close>

definition doubly_nested :: js where
  "doubly_nested = JObj [(''feedback'', JObj [(''feedback'', JObj [(''overallScore'', JNum 82)])])]"

definition single_wrap :: js where
  "single_wrap =
     JObj [(''feedback'',
            JObj [(''overall_score'', JNum 82), (''tone_and_style'', JObj [(''score'', JNum 70)])])]"

definition outer_keys_wrap :: js where
  "outer_keys_wrap =
     JObj [(''tone_and_style'', JObj [(''score'', JNum 80)]),
           (''feedback'', JObj [(''overallScore'', JNum 82)])]"

definition snake_case_reply :: js where
  "snake_case_reply =
     JObj [(''tone_and_style'', JObj [(''score'', JNum 80)]),
           (''overallScore'', JNum 82),
           (''overall_score'', JNum 50)]"

definition scenario_A_feedback :: js where
  "scenario_A_feedback =
     JObj [(''overallScore'', JNum 82), (''content'', JObj [(''score'', JNum 80), (''tips'', JArr [])])]"



text \<open>A browser without the hosted client, whose local endpoint answers every request with
  \<open>reply\<close>.\<close>

definition local_env :: "http_reply \<Rightarrow> env" where
  "local_env reply =
     \<lparr>puter_available = False,
      puter_fs_upload = (\<lambda>files. Inl (Thrown ''no client'')),
      puter_fs_read = (\<lambda>path. Inl (Thrown ''no client'')),
      blob_text = (\<lambda>blob. Inl (Thrown ''no client'')),
      puter_ai_chat = (\<lambda>path message. Inl (Thrown ''no client'')),
      puter_kv_set = (\<lambda>key val. Inl (Thrown ''no client'')),
      fetch_ollama = (\<lambda>prompt. reply),
      randomUUID = ''r-1'',
      generateUUID = ''u-1'',
      convertPdfToImage = (\<lambda>file. Inr (JObj [(''file'', JStr ''cv.png'')])),
      buildInstructions = (\<lambda>title description. ''Score the resume.'')\<rparr>"

text \<open>A browser with the hosted client: uploads and writes succeed, the stored file cannot
  be read back as text, the hosted model answers \<open>chat\<close>, the local endpoint \<open>reply\<close>.\<close>

definition hosted_env :: "error + js \<Rightarrow> http_reply \<Rightarrow> env" where
  "hosted_env chat reply =
     \<lparr>puter_available = True,
      puter_fs_upload = (\<lambda>files. Inr (JObj [(''path'', JStr ''/files/cv'')])),
      puter_fs_read = (\<lambda>path. Inl (Thrown ''read failed'')),
      blob_text = (\<lambda>blob. Inr []),
      puter_ai_chat = (\<lambda>path message. chat),
      puter_kv_set = (\<lambda>key val. Inr (JBool True)),
      fetch_ollama = (\<lambda>prompt. reply),
      randomUUID = ''r-1'',
      generateUUID = ''u-1'',
      convertPdfToImage = (\<lambda>file. Inr (JObj [(''file'', JStr ''cv.png'')])),
      buildInstructions = (\<lambda>title description. ''Score the resume.'')\<rparr>"

definition ok_reply :: "string \<Rightarrow> http_reply" where
  "ok_reply response = Reply True 200 [] (Some (JObj [(''response'', JStr response)]))"

text \<open>The record the resolver returns when the local model's text is not JSON, up to the
  identifier drawn for it.\<close>

definition safe_default :: "string \<Rightarrow> js" where
  "safe_default uuid =
     JObj
       [(''id'', JStr uuid),
        (''overallScore'', JNum 65),
        (''content'',
           JObj [(''score'', JNum 65),
                 (''tips'',
                    JArr [tip ''improve''
                            ''Add more role-specific keywords and measurable achievements.''])]),
        (''skills'',
           JObj [(''score'', JNum 60),
                 (''tips'',
                    JArr [tip ''improve''
                            ''List key tools/skills explicitly to improve ATS matching.''])]),
        (''structure'',
           JObj [(''score'', JNum 70),
                 (''tips'',
                    JArr [tip ''good''
                            ''Structure looks mostly clear; ensure consistent headings and spacing.''])]),
        (''toneAndStyle'',
           JObj [(''score'', JNum 65),
                 (''tips'',
                    JArr [tip ''improve'' ''Use stronger action verbs and quantify results.''])]),
        (''tips'',
           JArr [tip ''improve''
                   ''AI returned non-JSON output. Try a different model or simplify the input.''])]"

definition categories :: "string list" where
  "categories = [''content'', ''skills'', ''structure'', ''toneAndStyle'']"

text \<open>The hosted model's reply of scenario A.\<close>

definition chat_A :: js where
  \<open>chat_A =
     JObj [(''message'',
            JObj [(''content'',
                   JStr ''{"overallScore":82,"content":{"score":80,"tips":[]}}'')])]\<close>


definition run_A :: outcome where
  "run_A =
     handleAnalyze JSON_parse_ref (hosted_env (Inr chat_A) (ok_reply ''not json''))
       ''ACME'' ''Developer'' ''Write code.'' (JStr ''cv.pdf'')"


section \<open>Properties of the Feedback Normalizer\<close>

subsection \<open>Reading and writing properties\<close>

lemma get_set_prop:
  "get (set_prop x k v) k' = (if k' = k \<and> (\<exists>kvs. x = JObj kvs) then v else get x k')"
  by (cases x) (simp_all add: update_conv')

lemma has_key_set_prop: "has_key x k' \<Longrightarrow> has_key (set_prop x k v) k'"
  by (cases x) (simp_all add: update_conv')

lemma get_truthy_obj: "truthy (get x k) \<Longrightarrow> \<exists>kvs. x = JObj kvs"
  by (cases x) simp_all

lemma get_not_nullish_obj: "\<not> nullish (get x k) \<Longrightarrow> \<exists>kvs. x = JObj kvs"
  by (cases x) simp_all

lemma get_not_nullish_has_key: "\<not> nullish (get x k) \<Longrightarrow> has_key x k"
  by (cases x) (auto split: option.splits)

lemma truthy_not_nullish: "truthy x \<Longrightarrow> \<not> nullish x"
  by (cases x) simp_all

lemma typeof_set_prop: "typeof (set_prop x k v) = typeof x"
  by (cases x) simp_all

lemma truthy_set_prop: "truthy (set_prop x k v) = truthy x"
  by (cases x) simp_all

subsection \<open>The reconciliation step\<close>

lemma get_copy_tone:
  "get (copy_tone x) k =
     (if k = ''toneAndStyle'' \<and> \<not> truthy (get x ''toneAndStyle'') \<and> truthy (get x ''tone_and_style'')
      then get x ''tone_and_style'' else get x k)"
  by (auto simp: copy_tone_def get_set_prop dest: get_truthy_obj)

lemma get_copy_overall:
  "get (copy_overall x) k =
     (if k = ''overallScore'' \<and> nullish (get x ''overallScore'') \<and> \<not> nullish (get x ''overall_score'')
      then get x ''overall_score'' else get x k)"
  by (auto simp: copy_overall_def get_set_prop dest: get_not_nullish_obj)

lemma get_reconcile:
  "get (reconcile x) k =
     (if k = ''toneAndStyle'' \<and> \<not> truthy (get x ''toneAndStyle'') \<and> truthy (get x ''tone_and_style'')
        then get x ''tone_and_style''
      else if k = ''overallScore'' \<and> nullish (get x ''overallScore'') \<and> \<not> nullish (get x ''overall_score'')
        then get x ''overall_score''
      else get x k)"
  by (simp add: reconcile_def get_copy_overall get_copy_tone)

lemma has_key_reconcile: "has_key x k \<Longrightarrow> has_key (reconcile x) k"
  by (simp add: reconcile_def copy_overall_def copy_tone_def has_key_set_prop)

lemma typeof_reconcile: "typeof (reconcile x) = typeof x"
  by (simp add: reconcile_def copy_overall_def copy_tone_def typeof_set_prop)

lemma truthy_reconcile: "truthy (reconcile x) = truthy x"
  by (simp add: reconcile_def copy_overall_def copy_tone_def truthy_set_prop)

lemma copy_tone_fixed:
  "\<not> (\<not> truthy (get x ''toneAndStyle'') \<and> truthy (get x ''tone_and_style'')) \<Longrightarrow> copy_tone x = x"
  by (auto simp: copy_tone_def)

lemma copy_overall_fixed:
  "\<not> (nullish (get x ''overallScore'') \<and> \<not> nullish (get x ''overall_score'')) \<Longrightarrow> copy_overall x = x"
  by (auto simp: copy_overall_def)

lemma reconcile_idem: "reconcile (reconcile x) = reconcile x"
proof -
  have "copy_tone (reconcile x) = reconcile x"
    by (rule copy_tone_fixed) (simp add: get_reconcile)
  moreover have "copy_overall (reconcile x) = reconcile x"
    by (rule copy_overall_fixed) (simp add: get_reconcile)
  ultimately show ?thesis
    by (simp add: reconcile_def)
qed

lemma has_nested_reconcile: "has_nested (reconcile x) = has_nested x"
  by (simp add: has_nested_def get_reconcile)

subsection \<open>The object branch of both normalizers\<close>

lemma normalizeFeedback_object:
  "truthy x \<Longrightarrow> typeof x = TObject \<Longrightarrow> normalizeFeedback parse x = Some (reconcile (effective x))"
  by (subst normalizeFeedback.simps) simp

lemma normalizeFeedback2_object:
  "truthy x \<Longrightarrow> typeof x = TObject \<Longrightarrow> normalizeFeedback2 parse x = Some (reconcile (effective x))"
  by (subst normalizeFeedback2.simps) (cases x; simp)

lemma effective_object:
  "truthy x \<Longrightarrow> typeof x = TObject \<Longrightarrow> truthy (effective x) \<and> typeof (effective x) = TObject"
  by (simp add: effective_def has_nested_def)

lemma show_nat_nonempty: "show_nat n \<noteq> []"
  by (subst show_nat.simps) simp

lemma JSON_stringify_nonempty: "JSON_stringify v \<noteq> []"
  by (cases v) (simp_all add: show_int_def show_nat_nonempty quote_def)

subsection \<open>Idempotence\<close>

text \<open>
  Claim C3, as stated, at a doubly nested object: the first call returns the object one
  level down, \<open>{feedback: {overallScore: 82}}\<close>, and the second call unwraps once more, so
  normalizing twice differs from normalizing once.
\<close>

theorem normalizeFeedback_idempotent_counterexample:
  "Option.bind (normalizeFeedback JSON_parse_ref doubly_nested) (normalizeFeedback JSON_parse_ref)
     \<noteq> normalizeFeedback JSON_parse_ref doubly_nested"
  by (simp add: doubly_nested_def normalizeFeedback_object effective_def has_nested_def
        reconcile_def copy_tone_def copy_overall_def)

text \<open>
  Claim C3, amended: on every object whose effective object (the nested \<open>feedback\<close> object
  when there is one, else the object itself) holds no further object under \<open>feedback\<close>,
  both normalizers return the reconciled effective object, and normalizing that result
  again returns it unchanged. This covers objects without a nested \<open>feedback\<close> and the
  single-level wrap; it leaves out \<open>{feedback: {feedback: ...}}\<close>.
\<close>

theorem normalizeFeedback_idempotent:
  assumes "truthy x" and "typeof x = TObject" and "\<not> has_nested (effective x)"
  shows "normalizeFeedback parse x = Some (reconcile (effective x))
       \<and> Option.bind (normalizeFeedback parse x) (normalizeFeedback parse) = normalizeFeedback parse x
       \<and> normalizeFeedback2 parse x = Some (reconcile (effective x))
       \<and> Option.bind (normalizeFeedback2 parse x) (normalizeFeedback2 parse) = normalizeFeedback2 parse x"
proof -
  let ?y = "reconcile (effective x)"
  have obj: "truthy ?y" "typeof ?y = TObject"
    using assms effective_object [of x] by (simp_all add: truthy_reconcile typeof_reconcile)
  have "\<not> has_nested ?y"
    using assms by (simp add: has_nested_reconcile)
  then have eff: "effective ?y = ?y"
    by (simp add: effective_def)
  have n1: "normalizeFeedback parse x = Some ?y"
    using assms by (simp add: normalizeFeedback_object)
  have n2: "normalizeFeedback2 parse x = Some ?y"
    using assms by (simp add: normalizeFeedback2_object)
  have "normalizeFeedback parse ?y = Some ?y"
    using obj by (simp add: normalizeFeedback_object eff reconcile_idem)
  moreover have "normalizeFeedback2 parse ?y = Some ?y"
    using obj by (simp add: normalizeFeedback2_object eff reconcile_idem)
  ultimately show ?thesis
    using n1 n2 by simp
qed

theorem normalizeFeedback_idempotent_witness:
  "truthy single_wrap \<and> typeof single_wrap = TObject \<and> \<not> has_nested (effective single_wrap)
   \<and> Option.bind (normalizeFeedback JSON_parse_ref single_wrap) (normalizeFeedback JSON_parse_ref)
       = normalizeFeedback JSON_parse_ref single_wrap
   \<and> normalizeFeedback JSON_parse_ref single_wrap =
       Some (JObj [(''overall_score'', JNum 82), (''tone_and_style'', JObj [(''score'', JNum 70)]),
                   (''toneAndStyle'', JObj [(''score'', JNum 70)]), (''overallScore'', JNum 82)])"
proof -
  have h: "truthy single_wrap" "typeof single_wrap = TObject" "\<not> has_nested (effective single_wrap)"
    by (simp_all add: single_wrap_def effective_def has_nested_def)
  have r: "reconcile (effective single_wrap) =
      JObj [(''overall_score'', JNum 82), (''tone_and_style'', JObj [(''score'', JNum 70)]),
            (''toneAndStyle'', JObj [(''score'', JNum 70)]), (''overallScore'', JNum 82)]"
    by (simp add: single_wrap_def effective_def has_nested_def reconcile_def copy_tone_def
          copy_overall_def)
  note t = normalizeFeedback_idempotent [OF h, of JSON_parse_ref]
  from t have a:
    "Option.bind (normalizeFeedback JSON_parse_ref single_wrap) (normalizeFeedback JSON_parse_ref)
       = normalizeFeedback JSON_parse_ref single_wrap"
    by blast
  from t have b:
    "normalizeFeedback JSON_parse_ref single_wrap = Some (reconcile (effective single_wrap))"
    by blast
  show ?thesis
    using h a b [unfolded r] by (intro conjI)
qed

subsection \<open>Key variants\<close>

text \<open>
  Claim C7, as stated, at an object that carries \<open>tone_and_style\<close> next to a nested
  \<open>feedback\<close> object: the normalizer works on the nested object and returns it, so the
  result has neither \<open>toneAndStyle\<close> nor \<open>tone_and_style\<close>.
\<close>

theorem normalizeFeedback_key_variants_counterexample:
  "truthy (get outer_keys_wrap ''tone_and_style'')
   \<and> \<not> truthy (get outer_keys_wrap ''toneAndStyle'')
   \<and> normalizeFeedback JSON_parse_ref outer_keys_wrap = Some (JObj [(''overallScore'', JNum 82)])
   \<and> get (JObj [(''overallScore'', JNum 82)]) ''toneAndStyle'' \<noteq> get outer_keys_wrap ''tone_and_style''
   \<and> \<not> has_key (JObj [(''overallScore'', JNum 82)]) ''tone_and_style''"
  by (simp add: outer_keys_wrap_def normalizeFeedback_object effective_def has_nested_def
        reconcile_def copy_tone_def copy_overall_def)

text \<open>
  Claim C7, amended: the reconciliation is of the effective object. For every object, both
  normalizers return the reconciled effective object; when the effective object has
  \<open>tone_and_style\<close> truthy and \<open>toneAndStyle\<close> falsy, the result's \<open>toneAndStyle\<close> is that
  \<open>tone_and_style\<close> value and \<open>tone_and_style\<close> is still there; when the effective object
  has both \<open>overallScore\<close> and \<open>overall_score\<close> non-null, the result keeps that
  \<open>overallScore\<close>, and \<open>overall_score\<close> is still there.
\<close>

theorem normalizeFeedback_key_variants:
  assumes "truthy x" and "typeof x = TObject"
  shows "normalizeFeedback parse x = Some (reconcile (effective x))
       \<and> normalizeFeedback2 parse x = Some (reconcile (effective x))
       \<and> (truthy (get (effective x) ''tone_and_style'') \<and> \<not> truthy (get (effective x) ''toneAndStyle'')
            \<longrightarrow> get (reconcile (effective x)) ''toneAndStyle'' = get (effective x) ''tone_and_style''
              \<and> has_key (reconcile (effective x)) ''tone_and_style''
              \<and> get (reconcile (effective x)) ''tone_and_style'' = get (effective x) ''tone_and_style'')
       \<and> (\<not> nullish (get (effective x) ''overallScore'') \<and> \<not> nullish (get (effective x) ''overall_score'')
            \<longrightarrow> get (reconcile (effective x)) ''overallScore'' = get (effective x) ''overallScore''
              \<and> has_key (reconcile (effective x)) ''overall_score''
              \<and> get (reconcile (effective x)) ''overall_score'' = get (effective x) ''overall_score'')"
  using assms
  by (auto simp: normalizeFeedback_object normalizeFeedback2_object get_reconcile
        intro!: has_key_reconcile get_not_nullish_has_key dest: truthy_not_nullish)

theorem normalizeFeedback_key_variants_witness:
  "truthy snake_case_reply \<and> typeof snake_case_reply = TObject
   \<and> effective snake_case_reply = snake_case_reply
   \<and> truthy (get snake_case_reply ''tone_and_style'') \<and> \<not> truthy (get snake_case_reply ''toneAndStyle'')
   \<and> \<not> nullish (get snake_case_reply ''overallScore'') \<and> \<not> nullish (get snake_case_reply ''overall_score'')
   \<and> normalizeFeedback JSON_parse_ref snake_case_reply = Some (reconcile snake_case_reply)
   \<and> get (reconcile snake_case_reply) ''toneAndStyle'' = JObj [(''score'', JNum 80)]
   \<and> has_key (reconcile snake_case_reply) ''tone_and_style''
   \<and> get (reconcile snake_case_reply) ''overallScore'' = JNum 82
   \<and> has_key (reconcile snake_case_reply) ''overall_score''"
proof -
  have h: "truthy snake_case_reply" "typeof snake_case_reply = TObject"
    by (simp_all add: snake_case_reply_def)
  have e: "effective snake_case_reply = snake_case_reply"
    by (simp add: snake_case_reply_def effective_def has_nested_def)
  have g: "get snake_case_reply ''tone_and_style'' = JObj [(''score'', JNum 80)]"
    "get snake_case_reply ''toneAndStyle'' = JUndefined"
    "get snake_case_reply ''overallScore'' = JNum 82"
    "get snake_case_reply ''overall_score'' = JNum 50"
    by (simp_all add: snake_case_reply_def)
  show ?thesis
    using h e g normalizeFeedback_key_variants [OF h, of JSON_parse_ref] by simp
qed

subsection \<open>Strings\<close>

text \<open>
  Claim C8: when the feedback value \<open>v\<close> of a record survives serialisation, that is, when
  parsing \<open>JSON.stringify(v)\<close> gives \<open>v\<close> back, normalizing the serialised text gives what
  normalizing \<open>v\<close> gives, at both call sites.
\<close>

theorem normalizeFeedback_serialized:
  assumes "parse (JSON_stringify v) = Some v"
  shows "normalizeFeedback parse (JStr (JSON_stringify v)) = normalizeFeedback parse v
       \<and> normalizeFeedback2 parse (JStr (JSON_stringify v)) = normalizeFeedback2 parse v"
proof
  show "normalizeFeedback parse (JStr (JSON_stringify v)) = normalizeFeedback parse v"
    using assms by (subst normalizeFeedback.simps) (simp add: JSON_stringify_nonempty)
  show "normalizeFeedback2 parse (JStr (JSON_stringify v)) = normalizeFeedback2 parse v"
    using assms by (subst normalizeFeedback2.simps) (simp add: JSON_stringify_nonempty)
qed

theorem normalizeFeedback_serialized_witness:
  "JSON_parse_ref (JSON_stringify scenario_A_feedback) = Some scenario_A_feedback
   \<and> normalizeFeedback JSON_parse_ref (JStr (JSON_stringify scenario_A_feedback))
       = normalizeFeedback JSON_parse_ref scenario_A_feedback
   \<and> normalizeFeedback2 JSON_parse_ref (JStr (JSON_stringify scenario_A_feedback))
       = normalizeFeedback2 JSON_parse_ref scenario_A_feedback"
proof -
  have h: "JSON_parse_ref (JSON_stringify scenario_A_feedback) = Some scenario_A_feedback"
    by code_simp
  show ?thesis
    using h normalizeFeedback_serialized [of JSON_parse_ref scenario_A_feedback] by simp
qed

text \<open>
  Claim C9: on a string that does not parse, the first viewer's normalizer returns the
  string itself and the second viewer's returns \<open>null\<close>; both return a value.
\<close>

theorem normalizeFeedback_unparseable_string:
  assumes "parse s = None"
  shows "normalizeFeedback parse (JStr s) = Some (JStr s)
       \<and> normalizeFeedback2 parse (JStr s) = Some JNull"
proof
  show "normalizeFeedback parse (JStr s) = Some (JStr s)"
    using assms by (subst normalizeFeedback.simps) simp
  show "normalizeFeedback2 parse (JStr s) = Some JNull"
    using assms by (subst normalizeFeedback2.simps) simp
qed

theorem normalizeFeedback_unparseable_string_witness:
  "JSON_parse_ref ''not json'' = None
   \<and> normalizeFeedback JSON_parse_ref (JStr ''not json'') = Some (JStr ''not json'')
   \<and> normalizeFeedback2 JSON_parse_ref (JStr ''not json'') = Some JNull"
proof -
  have h: "JSON_parse_ref ''not json'' = None"
    by code_simp
  show ?thesis
    using h normalizeFeedback_unparseable_string [of JSON_parse_ref "''not json''"] by simp
qed

section \<open>Both normalizers return\<close>

text \<open>
  The recursion of a normalizer goes through the parser: a string that parses to a string
  is parsed again. Every parser that returns, for a string, only strings shorter than it
  (a JSON text of a string holds the string between quotes) makes both normalizers return
  on every input, and the reference parser is such a parser.
\<close>

lemma normalizeFeedback_non_string:
  assumes "\<And>s. x \<noteq> JStr s"
  shows "\<exists>y. normalizeFeedback parse x = Some y"
  using assms by (subst normalizeFeedback.simps) (cases x; auto split: option.splits)

lemma normalizeFeedback2_non_string:
  assumes "\<And>s. x \<noteq> JStr s"
  shows "\<exists>y. normalizeFeedback2 parse x = Some y"
  using assms by (subst normalizeFeedback2.simps) (cases x; auto split: option.splits)

lemma parse_string_body_shorter:
  "parse_string_body cs = Some (t, r) \<Longrightarrow> length t + length r < length cs"
proof (induction "length cs" arbitrary: cs t r rule: less_induct)
  case less
  have ih: "length t' + length r' < length cs'"
    if "parse_string_body cs' = Some (t', r')" "length cs' < length cs" for cs' t' r'
    using that less.hyps by blast
  show ?case
  proof (cases cs)
    case Nil
    with less.prems show ?thesis by simp
  next
    case (Cons c cs1)
    show ?thesis
    proof (cases cs1)
      case Nil
      with Cons less.prems show ?thesis by (simp split: if_splits)
    next
      case (Cons d cs2)
      with \<open>cs = c # cs1\<close> less.prems show ?thesis
        by (auto split: if_splits list.splits option.splits prod.splits dest!: ih)
    qed
  qed
qed


lemma length_skip_ws: "length (skip_ws s) \<le> length s"
  by (simp add: skip_ws_def length_dropWhile_le)

lemma parse_number_num: "parse_number s = Some (v, r) \<Longrightarrow> \<exists>n. v = JNum n"
  by (auto simp: parse_number_def split: if_splits)

lemma parse_value_string_shorter:
  assumes "parse_value n s = Some (JStr t, r)"
  shows "length t < length s"
proof (cases n)
  case 0
  with assms show ?thesis by simp
next
  case (Suc m)
  from assms Suc obtain c cs where ws: "skip_ws s = c # cs"
    by (auto split: list.splits)
  with length_skip_ws [of s] have len: "length cs < length s"
    by simp
  from assms Suc ws have "parse_string_body cs = Some (t, r)"
    by (auto simp: object_of_def split: if_splits dest: parse_number_num)
  from parse_string_body_shorter [OF this] len show ?thesis
    by simp
qed

lemma JSON_parse_ref_string_shorter:
  assumes "JSON_parse_ref s = Some (JStr t)"
  shows "length t < length s"
proof (cases "parse_value (2 * length s + 2) s")
  case None
  with assms show ?thesis
    by (simp add: JSON_parse_ref_def)
next
  case (Some vr)
  with assms have "parse_value (2 * length s + 2) s = Some (JStr t, snd vr)"
    by (cases vr) (simp add: JSON_parse_ref_def split: if_splits)
  then show ?thesis
    by (rule parse_value_string_shorter)
qed

lemma normalizeFeedback_returns:
  assumes shrink: "\<And>s t. parse s = Some (JStr t) \<Longrightarrow> length t < length s"
  shows "\<exists>y. normalizeFeedback parse x = Some y"
proof -
  have str: "\<exists>y. normalizeFeedback parse (JStr s) = Some y" for s
  proof (induction s rule: length_induct)
    case (1 s)
    show ?case
    proof (cases "parse s")
      case None
      then show ?thesis
        by (subst normalizeFeedback.simps) simp
    next
      case (Some v)
      have "\<exists>y. normalizeFeedback parse v = Some y"
      proof (cases "\<exists>t. v = JStr t")
        case True
        then obtain t where t: "v = JStr t" by blast
        with Some shrink have "length t < length s" by blast
        with 1 t show ?thesis by blast
      next
        case False
        then show ?thesis
          by (intro normalizeFeedback_non_string) blast
      qed
      with Some show ?thesis
        by (subst normalizeFeedback.simps) simp
    qed
  qed
  show ?thesis
  proof (cases "\<exists>s. x = JStr s")
    case True
    with str show ?thesis by blast
  next
    case False
    then show ?thesis
      by (intro normalizeFeedback_non_string) blast
  qed
qed

lemma normalizeFeedback2_returns:
  assumes shrink: "\<And>s t. parse s = Some (JStr t) \<Longrightarrow> length t < length s"
  shows "\<exists>y. normalizeFeedback2 parse x = Some y"
proof -
  have str: "\<exists>y. normalizeFeedback2 parse (JStr s) = Some y" for s
  proof (induction s rule: length_induct)
    case (1 s)
    show ?case
    proof (cases "parse s")
      case None
      then show ?thesis
        by (subst normalizeFeedback2.simps) simp
    next
      case (Some v)
      have "\<exists>y. normalizeFeedback2 parse v = Some y"
      proof (cases "\<exists>t. v = JStr t")
        case True
        then obtain t where t: "v = JStr t" by blast
        with Some shrink have "length t < length s" by blast
        with 1 t show ?thesis by blast
      next
        case False
        then show ?thesis
          by (intro normalizeFeedback2_non_string) blast
      qed
      with Some show ?thesis
        by (subst normalizeFeedback2.simps) simp
    qed
  qed
  show ?thesis
  proof (cases "\<exists>s. x = JStr s")
    case True
    with str show ?thesis by blast
  next
    case False
    then show ?thesis
      by (intro normalizeFeedback2_non_string) blast
  qed
qed

lemma normalizeFeedback_ref_returns:
  "\<exists>y. normalizeFeedback JSON_parse_ref x = Some y"
  "\<exists>y. normalizeFeedback2 JSON_parse_ref x = Some y"
  by (rule normalizeFeedback_returns normalizeFeedback2_returns,
      erule JSON_parse_ref_string_shorter)+

section \<open>The reference parser reads serialised values back\<close>

subsection \<open>Numbers\<close>

lemma of_char_digit_char: "d < 10 \<Longrightarrow> (of_char (digit_char d) :: nat) = 48 + d"
  by (simp add: digit_char_def)

lemma is_digit_digit_char: "d < 10 \<Longrightarrow> is_digit (digit_char d)"
  by (simp add: is_digit_def of_char_digit_char)

lemma digit_char_eq_0: "d < 10 \<Longrightarrow> digit_char d = CHR ''0'' \<longleftrightarrow> d = 0"
proof -
  assume d: "d < 10"
  have "digit_char d = CHR ''0'' \<longleftrightarrow> (of_char (digit_char d) :: nat) = of_char (CHR ''0'')"
    by (simp only: of_char_eq_iff)
  with d show ?thesis
    by (simp add: of_char_digit_char)
qed

lemma parse_digits_show_nat:
  "parse_digits (show_nat n @ rest) acc = parse_digits rest (acc * 10 ^ length (show_nat n) + n)"
proof (induction n arbitrary: rest acc rule: show_nat.induct)
  case (1 n)
  show ?case
  proof (cases "n < 10")
    case True
    then show ?thesis
      by (subst (1 2) show_nat.simps) (simp add: is_digit_digit_char of_char_digit_char)
  next
    case False
    have m: "n mod 10 < 10" by simp
    from False have s: "show_nat n = show_nat (n div 10) @ [digit_char (n mod 10)]"
      by (subst show_nat.simps) simp
    have "parse_digits (show_nat n @ rest) acc
        = parse_digits (show_nat (n div 10) @ (digit_char (n mod 10) # rest)) acc"
      by (simp add: s)
    also have "\<dots> = parse_digits (digit_char (n mod 10) # rest)
        (acc * 10 ^ length (show_nat (n div 10)) + n div 10)"
      using False by (simp add: "1.IH")
    also have "\<dots> = parse_digits rest
        ((acc * 10 ^ length (show_nat (n div 10)) + n div 10) * 10 + n mod 10)"
      using m by (simp add: is_digit_digit_char of_char_digit_char)
    also have "(acc * 10 ^ length (show_nat (n div 10)) + n div 10) * 10 + n mod 10
        = acc * 10 ^ length (show_nat n) + n"
      by (simp add: s algebra_simps)
    finally show ?thesis .
  qed
qed


lemma parse_digits_ends: "ends_value rest \<Longrightarrow> parse_digits rest acc = (acc, rest)"
  by (cases rest) (auto simp: ends_value_def is_digit_def)

lemma show_nat_Cons: "\<exists>c cs. show_nat n = c # cs \<and> is_digit c \<and> (c = CHR ''0'' \<longleftrightarrow> n = 0)
    \<and> (n = 0 \<longrightarrow> cs = [])"
proof (induction n rule: show_nat.induct)
  case (1 n)
  show ?case
  proof (cases "n < 10")
    case True
    then show ?thesis
      by (subst show_nat.simps) (simp add: is_digit_digit_char digit_char_eq_0)
  next
    case False
    from 1 [OF False] obtain c cs where "show_nat (n div 10) = c # cs" and "is_digit c"
      and "(c = CHR ''0'') = (n div 10 = 0)"
      by auto
    with False show ?thesis
      by (subst show_nat.simps) auto
  qed
qed

lemma parse_nat_lit_show_nat:
  assumes "ends_value rest"
  shows "parse_nat_lit (show_nat n @ rest) = Some (n, rest)"
proof -
  from show_nat_Cons [of n] obtain c cs where
    s: "show_nat n = c # cs" and d: "is_digit c" and z: "c = CHR ''0'' \<longleftrightarrow> n = 0"
    and e: "n = 0 \<longrightarrow> cs = []"
    by blast
  have nd: "\<not> (rest \<noteq> [] \<and> hd rest \<in> {CHR ''.'', CHR ''e'', CHR ''E''})"
    using assms by (auto simp: ends_value_def)
  show ?thesis
  proof (cases "n = 0")
    case True
    with s d z e nd show ?thesis
      by (simp add: parse_nat_lit_def)
  next
    case False
    have "parse_digits (show_nat n @ rest) 0 = (n, rest)"
      using assms by (simp add: parse_digits_show_nat parse_digits_ends)
    then have "parse_digits (c # cs @ rest) 0 = (n, rest)"
      by (simp add: s)
    with False s d z nd show ?thesis
      by (simp add: parse_nat_lit_def del: parse_digits.simps)
  qed
qed

lemma parse_number_show_int:
  assumes "ends_value rest"
  shows "parse_number (show_int i @ rest) = Some (JNum i, rest)"
proof (cases "i < 0")
  case True
  then show ?thesis
    using assms by (simp add: parse_number_def show_int_def parse_nat_lit_show_nat)
next
  case False
  from show_nat_Cons [of "nat i"] obtain c cs where
    s: "show_nat (nat i) = c # cs" and d: "is_digit c"
    by blast
  from d have "c \<noteq> CHR ''-''"
    by (auto simp: is_digit_def)
  with False s have "parse_number (show_int i @ rest)
      = map_option (\<lambda>(n, r). (JNum (int n), r)) (parse_nat_lit (show_nat (nat i) @ rest))"
    by (simp add: parse_number_def show_int_def)
  with False assms show ?thesis
    by (simp add: parse_nat_lit_show_nat)
qed


subsection \<open>String literals\<close>

lemma hex_val_hex_char: "d < 16 \<Longrightarrow> hex_val (hex_char d) = Some d"
  by (auto simp: hex_val_def hex_char_def of_char_digit_char Let_def)

lemma hex_val_zero: "hex_val (CHR ''0'') = Some 0"
  by (simp add: hex_val_def)

lemma parse_string_body_quote_char:
  "parse_string_body (quote_char c @ d # ds)
     = map_option (\<lambda>(t, r). (c # t, r)) (parse_string_body (d # ds))"
proof -
  have lt: "(of_char c :: nat) div 16 < 16" "(of_char c :: nat) mod 16 < 16"
    by (simp_all add: less_mult_imp_div_less)
  show ?thesis
    unfolding quote_char_def
    by (simp add: hex_val_hex_char [OF lt(1)] hex_val_hex_char [OF lt(2)] hex_val_zero)
qed

lemma parse_string_body_quoted:
  "parse_string_body (concat (map quote_char s) @ CHR 0x22 # rest) = Some (s, rest)"
proof (induction s)
  case Nil
  then show ?case
    by (cases rest) simp_all
next
  case (Cons c s)
  obtain d ds where tail: "concat (map quote_char s) @ CHR 0x22 # rest = d # ds"
    by (cases "concat (map quote_char s) @ CHR 0x22 # rest") simp_all
  have "parse_string_body (concat (map quote_char (c # s)) @ CHR 0x22 # rest)
      = parse_string_body (quote_char c @ d # ds)"
    using tail by simp
  also have "\<dots> = map_option (\<lambda>(t, r). (c # t, r)) (parse_string_body (d # ds))"
    by (rule parse_string_body_quote_char)
  also have "\<dots> = Some (c # s, rest)"
    using Cons tail by simp
  finally show ?case .
qed


subsection \<open>Values\<close>

lemma skip_ws_Cons: "\<not> is_json_ws c \<Longrightarrow> skip_ws (c # cs) = c # cs"
  by (simp add: skip_ws_def)

lemma show_int_Cons:
  "\<exists>c cs. show_int i = c # cs \<and> (c = CHR ''-'' \<or> is_digit c)"
  using show_nat_Cons [of "nat i"] show_nat_Cons [of "nat (- i)"]
  by (auto simp: show_int_def)

lemma parse_value_number:
  assumes "ends_value rest"
  shows "parse_value (Suc m) (show_int i @ rest) = Some (JNum i, rest)"
proof -
  from show_int_Cons [of i] obtain c cs where
    s: "show_int i = c # cs" and c: "c = CHR ''-'' \<or> is_digit c"
    by blast
  from c have ws: "\<not> is_json_ws c"
    and other: "c \<notin> {CHR ''n'', CHR ''t'', CHR ''f'', CHR 0x22, CHR ''['', CHR ''{''}"
    by (auto simp: is_digit_def is_json_ws_def)
  have "parse_value (Suc m) (show_int i @ rest) = parse_number (c # cs @ rest)"
    using ws other by (simp add: s skip_ws_Cons)
  also have "\<dots> = parse_number (show_int i @ rest)"
    by (simp add: s)
  finally show ?thesis
    using assms by (simp add: parse_number_show_int)
qed

lemma parse_value_string:
  "parse_value (Suc m) (quote s @ rest) = Some (JStr s, rest)"
  by (simp add: quote_def skip_ws_Cons is_json_ws_def parse_string_body_quoted)

lemma JSON_stringify_head:
  "\<exists>c cs. JSON_stringify v = c # cs \<and> \<not> is_json_ws c \<and> c \<noteq> CHR '']'' \<and> c \<noteq> CHR ''}''"
proof (cases v)
  case (JNum i)
  from show_int_Cons [of i] show ?thesis
    by (auto simp: JNum is_digit_def is_json_ws_def)
qed (auto simp: is_json_ws_def quote_def)

lemma assign_all_fresh:
  "distinct (map fst base @ map fst ps) \<Longrightarrow> assign_all base ps = base @ ps"
proof (induction base ps rule: assign_all.induct)
  case (1 base)
  then show ?case by simp
next
  case (2 base k v ps)
  then have "k \<notin> set (map fst base)" by auto
  then have u: "AList.update k v base = base @ [(k, v)]"
    by (induction base) auto
  with 2 show ?case by simp
qed

lemma object_of_distinct: "distinct (map fst kvs) \<Longrightarrow> object_of kvs = JObj kvs"
  using assign_all_fresh [of "[]" kvs] by (simp add: object_of_def)


lemma ends_value_simps [simp]:
  "ends_value []" "ends_value (CHR '','' # r)" "ends_value (CHR '']'' # r)" "ends_value (CHR ''}'' # r)"
  by (simp_all add: ends_value_def)

lemma stringify_elems_eq_Nil [simp]: "stringify_elems xs = [] \<longleftrightarrow> xs = []"
  by (cases xs) simp_all

lemma stringify_members_clean:
  "clean_members ((k, v) # kvs) \<Longrightarrow>
     stringify_members ((k, v) # kvs) = (quote k @ '':'' @ JSON_stringify v) # stringify_members kvs"
  by (cases v) simp_all

lemma json_clean_defined: "json_clean v \<Longrightarrow> v \<noteq> JUndefined"
  by auto

lemma stringify_members_eq_Nil: "clean_members kvs \<Longrightarrow> stringify_members kvs = [] \<longleftrightarrow> kvs = []"
  by (cases kvs) (auto dest: json_clean_defined split: if_splits)

lemma parse_roundtrip:
  "json_clean v \<Longrightarrow> sz v \<le> n \<Longrightarrow> ends_value rest
     \<Longrightarrow> parse_value n (JSON_stringify v @ rest) = Some (v, rest)"
  "clean_elems xs \<Longrightarrow> xs \<noteq> [] \<Longrightarrow> sz_elems xs \<le> n
     \<Longrightarrow> parse_elems n (join '','' (stringify_elems xs) @ CHR '']'' # rest) = Some (xs, rest)"
  "clean_members kvs \<Longrightarrow> kvs \<noteq> [] \<Longrightarrow> sz_members kvs \<le> n
     \<Longrightarrow> parse_members n (join '','' (stringify_members kvs) @ CHR ''}'' # rest) = Some (kvs, rest)"
proof (induction v and xs and kvs arbitrary: n rest and n rest and n rest
    rule: json_clean_clean_elems_clean_members.induct)
  case 1
  then show ?case by simp
next
  case 2
  then obtain m where "n = Suc m" by (cases n) simp_all
  then show ?case
    by (simp add: skip_ws_Cons is_json_ws_def)
next
  case (3 b)
  then obtain m where "n = Suc m" by (cases n) simp_all
  then show ?case
    by (simp add: skip_ws_Cons is_json_ws_def)
next
  case (4 i)
  then obtain m where "n = Suc m" by (cases n) simp_all
  with 4 show ?case
    by (simp add: parse_value_number del: parse_value.simps)
next
  case (5 s)
  then obtain m where "n = Suc m" by (cases n) simp_all
  then show ?case
    by (simp add: parse_value_string del: parse_value.simps)
next
  case (6 xs)
  then obtain m where n: "n = Suc m" and m: "sz_elems xs \<le> m" by (cases n) simp_all
  show ?case
  proof (cases "xs = []")
    case True
    with n show ?thesis
      by (simp add: skip_ws_Cons is_json_ws_def)
  next
    case False
    then obtain x xs' where xs: "xs = x # xs'" by (cases xs) simp_all
    from JSON_stringify_head [of x] obtain c cs where
      h: "JSON_stringify x = c # cs" "\<not> is_json_ws c" "c \<noteq> CHR '']''"
      by blast
    then have hd: "\<exists>cs'. join '','' (stringify_elems xs) @ CHR '']'' # rest = c # cs'"
      by (cases xs') (simp_all add: xs)
    from 6 False m have "parse_elems m (join '','' (stringify_elems xs) @ CHR '']'' # rest)
        = Some (xs, rest)"
      by simp
    with hd h n show ?thesis
      by (auto simp: skip_ws_Cons is_json_ws_def)
  qed
next
  case (7 kvs)
  then obtain m where n: "n = Suc m" and m: "sz_members kvs \<le> m" by (cases n) simp_all
  from 7 have d: "distinct (map fst kvs)" and cl: "clean_members kvs" by simp_all
  show ?case
  proof (cases "kvs = []")
    case True
    with n show ?thesis
      by (simp add: skip_ws_Cons is_json_ws_def)
  next
    case False
    then obtain k v kvs' where kvs: "kvs = (k, v) # kvs'" by (cases kvs) auto
    have hd: "\<exists>cs'. join '','' (stringify_members kvs) @ CHR ''}'' # rest = CHR 0x22 # cs'"
      using cl unfolding kvs
      by (cases "stringify_members kvs'") (auto simp: quote_def dest: json_clean_defined)
    from 7 False m cl have "parse_members m (join '','' (stringify_members kvs) @ CHR ''}'' # rest)
        = Some (kvs, rest)"
      by simp
    with hd n d show ?thesis
      by (auto simp: skip_ws_Cons is_json_ws_def object_of_distinct)
  qed
next
  case 8
  then show ?case by simp
next
  case (9 x xs)
  then obtain m where n: "n = Suc m" and m: "sz x \<le> m" "sz_elems xs \<le> m"
    by (cases n) simp_all
  from 9 have cx: "json_clean x" and cxs: "clean_elems xs" by simp_all
  show ?case
  proof (cases "xs = []")
    case True
    have "parse_value m (JSON_stringify x @ CHR '']'' # rest) = Some (x, CHR '']'' # rest)"
      using cx m by (intro "9.IH"(1)) simp_all
    with True n show ?thesis
      by (simp add: skip_ws_Cons is_json_ws_def)
  next
    case False
    then obtain y ys where xs: "xs = y # ys" by (cases xs) simp_all
    let ?tail = "join '','' (stringify_elems xs) @ CHR '']'' # rest"
    have v: "parse_value m (JSON_stringify x @ CHR '','' # ?tail) = Some (x, CHR '','' # ?tail)"
      using cx m by (intro "9.IH"(1)) simp_all
    have e: "parse_elems m ?tail = Some (xs, rest)"
      using cxs False m by (intro "9.IH"(2)) simp_all
    have "join '','' (stringify_elems (x # xs)) @ CHR '']'' # rest
        = JSON_stringify x @ CHR '','' # ?tail"
      by (simp add: xs)
    with v e n show ?thesis
      by (simp add: skip_ws_Cons is_json_ws_def del: join.simps stringify_elems.simps)
  qed
next
  case 10
  then show ?case by simp
next
  case (11 k v kvs)
  then obtain m where n: "n = Suc m" and m: "sz v \<le> m" "sz_members kvs \<le> m"
    by (cases n) simp_all
  from 11 have cv: "json_clean v" and ckvs: "clean_members kvs" by simp_all
  have key: "parse_string_body (concat (map quote_char k) @ CHR 0x22 # CHR '':'' # r)
      = Some (k, CHR '':'' # r)" for r
    by (rule parse_string_body_quoted)
  show ?case
  proof (cases "kvs = []")
    case True
    have "parse_value m (JSON_stringify v @ CHR ''}'' # rest) = Some (v, CHR ''}'' # rest)"
      using cv m by (intro "11.IH"(1)) simp_all
    with True n json_clean_defined [OF cv] show ?thesis
      by (simp add: quote_def skip_ws_Cons is_json_ws_def key)
  next
    case False
    let ?tail = "join '','' (stringify_members kvs) @ CHR ''}'' # rest"
    have pv: "parse_value m (JSON_stringify v @ CHR '','' # ?tail) = Some (v, CHR '','' # ?tail)"
      using cv m by (intro "11.IH"(1)) simp_all
    have pm: "parse_members m ?tail = Some (kvs, rest)"
      using ckvs False m by (intro "11.IH"(2)) simp_all
    from False ckvs obtain e es where es: "stringify_members kvs = e # es"
      by (cases "stringify_members kvs") (simp_all add: stringify_members_eq_Nil)
    have "join '','' (stringify_members ((k, v) # kvs)) @ CHR ''}'' # rest
        = CHR 0x22 # concat (map quote_char k) @ CHR 0x22 # CHR '':'' #
            JSON_stringify v @ CHR '','' # ?tail"
      using json_clean_defined [OF cv] by (simp add: es quote_def)
    with pv pm n show ?thesis
      by (simp add: skip_ws_Cons is_json_ws_def key del: join.simps stringify_members.simps)
  qed
qed


lemma sz_le_length:
  "json_clean v \<Longrightarrow> sz v \<le> length (JSON_stringify v)"
  "clean_elems xs \<Longrightarrow> sz_elems xs \<le> Suc (length (join '','' (stringify_elems xs)))"
  "clean_members kvs \<Longrightarrow> sz_members kvs \<le> Suc (length (join '','' (stringify_members kvs)))"
proof (induction v and xs and kvs rule: json_clean_clean_elems_clean_members.induct)
  case (4 i)
  from show_int_Cons [of i] show ?case by auto
next
  case (5 s)
  show ?case by (simp add: quote_def)
next
  case (9 x xs)
  then show ?case
    by (cases xs) auto
next
  case (11 k v kvs)
  then have "v \<noteq> JUndefined" by auto
  with 11 show ?case
    by (cases "stringify_members kvs") (auto simp: quote_def)
qed simp_all

text \<open>The reference parser reads back what \<open>JSON.stringify\<close> writes of a clean value.\<close>

lemma JSON_parse_ref_stringify:
  assumes "json_clean v"
  shows "JSON_parse_ref (JSON_stringify v) = Some v"
proof -
  have "sz v \<le> 2 * length (JSON_stringify v) + 2"
    using sz_le_length(1) [OF assms] by simp
  with assms have "parse_value (2 * length (JSON_stringify v) + 2) (JSON_stringify v @ [])
      = Some (v, [])"
    by (intro parse_roundtrip(1)) simp_all
  then show ?thesis
    by (simp add: JSON_parse_ref_def skip_ws_def del: parse_value.simps)
qed

text \<open>So, with the reference parser, both normalizers give for the serialised text of a
  clean value what they give for the value.\<close>

lemma normalizeFeedback_serialized_clean:
  assumes "json_clean v"
  shows "normalizeFeedback JSON_parse_ref (JStr (JSON_stringify v)) = normalizeFeedback JSON_parse_ref v"
    and "normalizeFeedback2 JSON_parse_ref (JStr (JSON_stringify v)) = normalizeFeedback2 JSON_parse_ref v"
proof -
  note rt = JSON_parse_ref_stringify [OF assms]
  show "normalizeFeedback JSON_parse_ref (JStr (JSON_stringify v)) = normalizeFeedback JSON_parse_ref v"
    using rt by (subst normalizeFeedback.simps) (simp add: JSON_stringify_nonempty)
  show "normalizeFeedback2 JSON_parse_ref (JStr (JSON_stringify v)) = normalizeFeedback2 JSON_parse_ref v"
    using rt by (subst normalizeFeedback2.simps) (simp add: JSON_stringify_nonempty)
qed

section \<open>Properties of the Provider Fallback Resolver\<close>

subsection \<open>Object literals with a spread\<close>







subsection \<open>The mapping onto the canonical schema\<close>



lemma nc_obj [simp]: "nc (JObj kvs) d = JObj kvs"
  by (simp add: nc_def)







subsection \<open>The secondary provider\<close>

lemma toAIResponseFromJSON_fallback:
  "toAIResponseFromJSON uuid non_json_fallback = safe_default uuid"
  by (simp add: toAIResponseFromJSON_def non_json_fallback_def safe_default_def spread_over_def
        nc_def)


text \<open>
  Claim C5: when the local endpoint answers 2xx and the \<open>response\<close> field of its body does
  not parse (or is not a string at all), the resolver returns the fixed record: overall
  score 65, one top-level tip, whose text says that the output was non-JSON, and for each
  of the four categories one tip and a score between 60 and 70.
\<close>

theorem ollamaFeedback_non_json:
  assumes "fetch_ollama env (strictPrompt prompt) = Reply True status txt (Some data)"
    and "\<forall>r. nc (get data ''response'') (JStr []) = JStr r \<longrightarrow> parse (trim r) = None"
  shows "ollamaFeedback parse env prompt = Inr (safe_default (randomUUID env))
       \<and> get (safe_default (randomUUID env)) ''overallScore'' = JNum 65
       \<and> get (safe_default (randomUUID env)) ''tips'' =
           JArr [tip ''improve'' (''AI returned '' @ ''non-JSON output'' @
                                   ''. Try a different model or simplify the input.'')]
       \<and> (\<forall>c \<in> set categories.
            \<exists>n t. get (get (safe_default (randomUUID env)) c) ''score'' = JNum n
                 \<and> 60 \<le> n \<and> n \<le> 70
                 \<and> get (get (safe_default (randomUUID env)) c) ''tips'' = JArr [t])"
proof (intro conjI)
  show "ollamaFeedback parse env prompt = Inr (safe_default (randomUUID env))"
    using assms
    by (auto simp: ollamaFeedback_def Let_def toAIResponseFromJSON_fallback
          split: js.splits option.splits)
  show "get (safe_default (randomUUID env)) ''overallScore'' = JNum 65"
    by (simp add: safe_default_def)
  show "get (safe_default (randomUUID env)) ''tips'' =
      JArr [tip ''improve'' (''AI returned '' @ ''non-JSON output'' @
                              ''. Try a different model or simplify the input.'')]"
    by (simp add: safe_default_def)
  show "\<forall>c \<in> set categories.
      \<exists>n t. get (get (safe_default (randomUUID env)) c) ''score'' = JNum n
           \<and> 60 \<le> n \<and> n \<le> 70
           \<and> get (get (safe_default (randomUUID env)) c) ''tips'' = JArr [t]"
    by (simp add: categories_def safe_default_def)
qed

theorem ollamaFeedback_non_json_witness:
  "fetch_ollama (local_env (ok_reply ''not json'')) (strictPrompt ''Analyze'')
     = Reply True 200 [] (Some (JObj [(''response'', JStr ''not json'')]))
   \<and> JSON_parse_ref (trim ''not json'') = None
   \<and> ollamaFeedback JSON_parse_ref (local_env (ok_reply ''not json'')) ''Analyze''
       = Inr (safe_default ''r-1'')"
proof -
  have f: "fetch_ollama (local_env (ok_reply ''not json'')) (strictPrompt ''Analyze'')
      = Reply True 200 [] (Some (JObj [(''response'', JStr ''not json'')]))"
    by (simp add: local_env_def ok_reply_def)
  have p: "JSON_parse_ref (trim ''not json'') = None"
    by code_simp
  have h: "\<forall>r. nc (get (JObj [(''response'', JStr ''not json'')]) ''response'') (JStr []) = JStr r
      \<longrightarrow> JSON_parse_ref (trim r) = None"
    using p by (simp add: nc_def)
  have u: "randomUUID (local_env (ok_reply ''not json'')) = ''r-1''"
    by (simp add: local_env_def)
  show ?thesis
    using f p ollamaFeedback_non_json [OF f h] by (simp add: u)
qed

subsection \<open>The resolver\<close>







section \<open>Properties of the Response Extractor\<close>










section \<open>Properties of the upload flow\<close>

subsection \<open>Step 5: the AI call and the final write\<close>

lemma analyze_and_save_events:
  "\<exists>rest. events (analyze_and_save parse env uuid data key path message evs)
             = evs @ AiFeedback path message # rest
         \<and> (rest = [] \<or> (\<exists>fbv. rest = [KvSet key (JSON_stringify (set_prop data ''feedback'' fbv))]))"
  by (auto simp: analyze_and_save_def Let_def stop_def caught_def kv_set_def
        split: sum.splits option.splits if_splits prod.splits)



subsection \<open>Steps 1 to 4\<close>

lemma pickUploaded_undefined: "get (pickUploaded JUndefined) k = JUndefined"
  by (simp add: pickUploaded_def)

text \<open>The three ways the flow can go: it stops before the placeholder write; the
  placeholder write is attempted and throws; or the placeholder write returns and step 5
  runs.\<close>

lemma handleAnalyze_cases:
  assumes out_def: "out = handleAnalyze parse env companyName jobTitle jobDescription file"
    and key_def: "key = ''resume:'' @ generateUUID env"
  shows "(events out = [] \<and> navigated out = None)
       \<or> (\<exists>rp ip e. events out =
              [KvSet key (JSON_stringify (resume_data (generateUUID env) rp ip
                                            companyName jobTitle jobDescription (JStr [])))]
            \<and> puter_kv_set env key
                 (JSON_stringify (resume_data (generateUUID env) rp ip
                                    companyName jobTitle jobDescription (JStr []))) = Inl e
            \<and> navigated out = None)
       \<or> (\<exists>rp ip ok. puter_available env
            \<and> puter_kv_set env key
                 (JSON_stringify (resume_data (generateUUID env) rp ip
                                    companyName jobTitle jobDescription (JStr []))) = Inr ok
            \<and> out = analyze_and_save parse env (generateUUID env)
                      (resume_data (generateUUID env) rp ip companyName jobTitle jobDescription (JStr []))
                      key rp (combinedMessage env companyName jobTitle jobDescription)
                      [KvSet key (JSON_stringify (resume_data (generateUUID env) rp ip
                                                    companyName jobTitle jobDescription (JStr [])))])"
proof (cases "puter_available env")
  case False
  then show ?thesis
    by (simp add: out_def handleAnalyze_def fs_upload_def pickUploaded_undefined stop_def)
next
  case True
  then show ?thesis
    unfolding out_def key_def handleAnalyze_def Let_def
    by (auto simp: fs_upload_def kv_set_def stop_def caught_def split: sum.splits)
qed

subsection \<open>The two writes\<close>



text \<open>
  Claim C10: the flow calls the store's \<open>set\<close> at most twice, both times under
  \<open>resume:<id>\<close>; the first value is the serialised placeholder record and the second the
  serialisation of the same record with another \<open>feedback\<close>: \<open>id\<close>, \<open>resumePath\<close>,
  \<open>imagePath\<close>, \<open>companyName\<close>, \<open>jobTitle\<close> and \<open>jobDescription\<close> are the same in both.
\<close>

theorem handleAnalyze_frame:
  assumes "out = handleAnalyze parse env companyName jobTitle jobDescription file"
    and "key = ''resume:'' @ generateUUID env"
  shows "\<exists>rp ip.
      (kv_writes (events out) = []
       \<or> kv_writes (events out) =
           [(key, JSON_stringify (resume_data (generateUUID env) rp ip
                                    companyName jobTitle jobDescription (JStr [])))]
       \<or> (\<exists>fbv. kv_writes (events out) =
           [(key, JSON_stringify (resume_data (generateUUID env) rp ip
                                    companyName jobTitle jobDescription (JStr []))),
            (key, JSON_stringify (resume_data (generateUUID env) rp ip
                                    companyName jobTitle jobDescription fbv))]))
      \<and> (\<forall>fbv. \<forall>f \<in> set [''id'', ''resumePath'', ''imagePath'', ''companyName'', ''jobTitle'',
                           ''jobDescription''].
            get (resume_data (generateUUID env) rp ip companyName jobTitle jobDescription fbv) f
              = get (resume_data (generateUUID env) rp ip
                       companyName jobTitle jobDescription (JStr [])) f)"
proof -
  have frame: "\<forall>fbv. \<forall>f \<in> set [''id'', ''resumePath'', ''imagePath'', ''companyName'', ''jobTitle'',
                           ''jobDescription''].
            get (resume_data (generateUUID env) rp ip companyName jobTitle jobDescription fbv) f
              = get (resume_data (generateUUID env) rp ip
                       companyName jobTitle jobDescription (JStr [])) f" for rp ip
    by (simp add: resume_data_def)
  have upd: "set_prop (resume_data u rp ip companyName jobTitle jobDescription (JStr []))
      ''feedback'' fbv = resume_data u rp ip companyName jobTitle jobDescription fbv" for u rp ip fbv
    by (simp add: resume_data_def)
  from handleAnalyze_cases [OF assms]
  consider (none) "events out = []"
    | (threw) rp ip where "events out =
              [KvSet key (JSON_stringify (resume_data (generateUUID env) rp ip
                                            companyName jobTitle jobDescription (JStr [])))]"
    | (step5) rp ip where "out = analyze_and_save parse env (generateUUID env)
                      (resume_data (generateUUID env) rp ip companyName jobTitle jobDescription (JStr []))
                      key rp (combinedMessage env companyName jobTitle jobDescription)
                      [KvSet key (JSON_stringify (resume_data (generateUUID env) rp ip
                                                    companyName jobTitle jobDescription (JStr [])))]"
    by blast
  then show ?thesis
  proof cases
    case none
    then show ?thesis
      using frame by auto
  next
    case threw
    then have "kv_writes (events out) =
           [(key, JSON_stringify (resume_data (generateUUID env) rp ip
                                    companyName jobTitle jobDescription (JStr [])))]"
      by simp
    then show ?thesis
      using frame by blast
  next
    case step5
    from analyze_and_save_events [of parse env "generateUUID env"
        "resume_data (generateUUID env) rp ip companyName jobTitle jobDescription (JStr [])"
        key rp "combinedMessage env companyName jobTitle jobDescription"
        "[KvSet key (JSON_stringify (resume_data (generateUUID env) rp ip
                                       companyName jobTitle jobDescription (JStr [])))]"]
    obtain rest where ev: "events out =
        [KvSet key (JSON_stringify (resume_data (generateUUID env) rp ip
                                      companyName jobTitle jobDescription (JStr [])))]
        @ AiFeedback rp (combinedMessage env companyName jobTitle jobDescription) # rest"
      and rest: "rest = [] \<or> (\<exists>fbv. rest = [KvSet key (JSON_stringify
          (resume_data (generateUUID env) rp ip companyName jobTitle jobDescription fbv))])"
      unfolding step5 upd by blast
    from ev rest have "kv_writes (events out) =
           [(key, JSON_stringify (resume_data (generateUUID env) rp ip
                                    companyName jobTitle jobDescription (JStr [])))]
       \<or> (\<exists>fbv. kv_writes (events out) =
           [(key, JSON_stringify (resume_data (generateUUID env) rp ip
                                    companyName jobTitle jobDescription (JStr []))),
            (key, JSON_stringify (resume_data (generateUUID env) rp ip
                                    companyName jobTitle jobDescription fbv))])"
      by auto
    then show ?thesis
      using frame by blast
  qed
qed

theorem handleAnalyze_frame_witness:
  "length (kv_writes (events run_A)) = 2
   \<and> (\<exists>rp ip fbv.
        kv_writes (events run_A) =
          [(''resume:u-1'', JSON_stringify (resume_data ''u-1'' rp ip
                                             ''ACME'' ''Developer'' ''Write code.'' (JStr []))),
           (''resume:u-1'', JSON_stringify (resume_data ''u-1'' rp ip
                                             ''ACME'' ''Developer'' ''Write code.'' fbv))]
        \<and> get (resume_data ''u-1'' rp ip ''ACME'' ''Developer'' ''Write code.'' fbv) ''jobTitle''
            = get (resume_data ''u-1'' rp ip ''ACME'' ''Developer'' ''Write code.'' (JStr []))
                ''jobTitle'')"
proof -
  let ?env = "hosted_env (Inr chat_A) (ok_reply ''not json'')"
  have two: "length (kv_writes (events run_A)) = 2"
    by code_simp
  have k: "''resume:u-1'' = ''resume:'' @ generateUUID ?env"
    by (simp add: hosted_env_def)
  have u: "generateUUID ?env = ''u-1''"
    by (simp add: hosted_env_def)
  from handleAnalyze_frame [OF run_A_def k, unfolded u] two
  obtain rp ip fbv where
    "kv_writes (events run_A) =
          [(''resume:u-1'', JSON_stringify (resume_data ''u-1'' rp ip
                                             ''ACME'' ''Developer'' ''Write code.'' (JStr []))),
           (''resume:u-1'', JSON_stringify (resume_data ''u-1'' rp ip
                                             ''ACME'' ''Developer'' ''Write code.'' fbv))]"
    and "\<forall>fbv. \<forall>f \<in> set [''id'', ''resumePath'', ''imagePath'', ''companyName'', ''jobTitle'',
                           ''jobDescription''].
            get (resume_data ''u-1'' rp ip ''ACME'' ''Developer'' ''Write code.'' fbv) f
              = get (resume_data ''u-1'' rp ip ''ACME'' ''Developer'' ''Write code.'' (JStr [])) f"
    by auto
  then have "kv_writes (events run_A) =
          [(''resume:u-1'', JSON_stringify (resume_data ''u-1'' rp ip
                                             ''ACME'' ''Developer'' ''Write code.'' (JStr []))),
           (''resume:u-1'', JSON_stringify (resume_data ''u-1'' rp ip
                                             ''ACME'' ''Developer'' ''Write code.'' fbv))]
        \<and> get (resume_data ''u-1'' rp ip ''ACME'' ''Developer'' ''Write code.'' fbv) ''jobTitle''
            = get (resume_data ''u-1'' rp ip ''ACME'' ''Developer'' ''Write code.'' (JStr []))
                ''jobTitle''"
    by simp
  with two show ?thesis
    by blast
qed

end
